theory Spec2Isabelle
  imports Main
begin

section \<open>Pattern matcher\<close>

text \<open>
  The confinement pattern of \<^verbatim>\<open>BuilderOnlyGuard\<close> is the regular expression literal
  \<^verbatim>\<open>/^\/flow\/[^/]+/\<close>. It has no flags, so \<^verbatim>\<open>test\<close> keeps no state between calls,
  and it starts with \<^verbatim>\<open>^\<close>, so a match can only begin at the first character. A
  regular expression of this shape is the sequence of its quantified atoms after the
  anchor; nothing anchors its end.
\<close>

datatype atom =
    Char char             \<comment> \<open>a literal character, such as \<^verbatim>\<open>\/\<close> or \<^verbatim>\<open>f\<close>\<close>
  | NoneOf "char list"    \<comment> \<open>a negated class, such as \<^verbatim>\<open>[^/]\<close>\<close>

datatype piece =
    One atom              \<comment> \<open>the atom, once\<close>
  | Plus atom             \<comment> \<open>the atom under \<^verbatim>\<open>+\<close>: once or more\<close>

type_synonym regexp = "piece list"

fun atom_matches :: "atom \<Rightarrow> char \<Rightarrow> bool" where
  "atom_matches (Char c) x = (x = c)"
| "atom_matches (NoneOf cs) x = (x \<notin> set cs)"

text \<open>
  Matching at the start of the input, with backtracking over \<^verbatim>\<open>+\<close> (the longer
  repetition is tried first, as a greedy quantifier does). The pattern is exhausted
  before the input need be: the rest of the input is not looked at.
\<close>

fun match_here :: "regexp \<Rightarrow> string \<Rightarrow> bool" where
  "match_here [] s = True"
| "match_here (One a # r) [] = False"
| "match_here (One a # r) (x # s) = (atom_matches a x \<and> match_here r s)"
| "match_here (Plus a # r) [] = False"
| "match_here (Plus a # r) (x # s) =
     (atom_matches a x \<and> (match_here (Plus a # r) s \<or> match_here r s))"

definition test :: "regexp \<Rightarrow> string \<Rightarrow> bool" where
  "test r s = match_here r s"

definition ALLOWED_FLOW_PATTERN :: regexp where
  "ALLOWED_FLOW_PATTERN =
     [One (Char CHR ''/''), One (Char CHR ''f''), One (Char CHR ''l''),
      One (Char CHR ''o''), One (Char CHR ''w''), One (Char CHR ''/''),
      Plus (NoneOf ''/'')]"

text \<open>
  \<^verbatim>\<open>RouteBlocker\<close> and \<^verbatim>\<open>usePreventNavigation\<close> take the pattern as a parameter
  \<^verbatim>\<open>allowedPattern: RegExp\<close> and only ever call its \<^verbatim>\<open>test\<close>; the parameter is
  modelled by that function (a regular expression without the \<^verbatim>\<open>g\<close> or \<^verbatim>\<open>y\<close> flag,
  as in the documented example, whose \<^verbatim>\<open>test\<close> depends on its argument alone).
\<close>

type_synonym pattern = "string \<Rightarrow> bool"

section \<open>Transition veto\<close>

text \<open>The callback \<^verbatim>\<open>RouteBlocker\<close> hands to \<^verbatim>\<open>useBlocker\<close>.\<close>

definition RouteBlocker_shouldBlock :: "bool \<Rightarrow> pattern \<Rightarrow> string \<Rightarrow> string \<Rightarrow> bool" where
  "RouteBlocker_shouldBlock enabled allowedPattern currentPath nextPath =
     (if \<not> enabled then False
      else let isCurrentValid = allowedPattern currentPath;
               isNextValid = allowedPattern nextPath
           in isCurrentValid \<and> \<not> isNextValid)"

text \<open>
  The callback of \<^verbatim>\<open>BuilderOnlyGuard\<close>. The flag \<^verbatim>\<open>ENABLE_BUILDER_ONLY_MODE\<close> is
  imported from \<^verbatim>\<open>customization/feature-flags\<close>; it is a parameter here.
\<close>

definition BuilderOnlyGuard_shouldBlock :: "bool \<Rightarrow> string \<Rightarrow> string \<Rightarrow> bool" where
  "BuilderOnlyGuard_shouldBlock ENABLE_BUILDER_ONLY_MODE currentPath nextPath =
     (if \<not> ENABLE_BUILDER_ONLY_MODE then False
      else let isCurrentValid = test ALLOWED_FLOW_PATTERN currentPath;
               isNextValid = test ALLOWED_FLOW_PATTERN nextPath
           in isCurrentValid \<and> \<not> isNextValid)"

subsection \<open>Development diagnostics\<close>

text \<open>
  What \<^verbatim>\<open>useBlocker\<close> returns: the state of the blocker and, when a transition is
  held, the location that was attempted.
\<close>

datatype blocker_state = Unblocked | Blocked | Proceeding

record blocker =
  state :: blocker_state
  location :: "string option"

record warning =
  message :: string
  attempted :: "string option"
  current :: string

text \<open>
  The logging effect of \<^verbatim>\<open>RouteBlocker\<close>: the list of \<^verbatim>\<open>console.warn\<close> calls it makes
  under the build mode \<^verbatim>\<open>process.env.NODE_ENV\<close>.
\<close>

definition RouteBlocker_logEffect :: "string \<Rightarrow> blocker \<Rightarrow> string \<Rightarrow> warning list" where
  "RouteBlocker_logEffect NODE_ENV b location_pathname =
     (if state b = Blocked \<and> NODE_ENV = ''development''
      then [\<lparr>message = ''[RouteBlocker] Navigation blocked. Builder-only mode is enabled.'',
             attempted = location b, current = location_pathname\<rparr>]
      else [])"

text \<open>
  The router consults the callback before it commits a transition: a vetoed transition
  leaves the blocker in state \<^verbatim>\<open>blocked\<close> holding the attempted location, and the
  component renders again with the location unchanged, which runs the logging effect.
  One proposed transition, under a build mode, yields the decision and the log lines.
\<close>

definition RouteBlocker_transition ::
  "string \<Rightarrow> bool \<Rightarrow> pattern \<Rightarrow> string \<Rightarrow> string \<Rightarrow> bool \<times> warning list" where
  "RouteBlocker_transition NODE_ENV enabled allowedPattern currentPath nextPath =
     (let decision = RouteBlocker_shouldBlock enabled allowedPattern currentPath nextPath;
          b = (if decision then \<lparr>state = Blocked, location = Some nextPath\<rparr>
               else \<lparr>state = Unblocked, location = None\<rparr>)
      in (decision, RouteBlocker_logEffect NODE_ENV b currentPath))"

section \<open>The host: history stack, navigation, listeners\<close>

text \<open>
  The guards act on the browser through \<^verbatim>\<open>window.history\<close>, the router's
  \<^verbatim>\<open>navigate\<close> and the listeners of \<^verbatim>\<open>window\<close>. This section is the behaviour of that
  host, as the History and DOM event interfaces define it.
\<close>

text \<open>
  The session history of the browser, as the guards see it: the pathname of the current
  entry (\<^verbatim>\<open>window.location.pathname\<close>), the entries behind it (reached by going back)
  and the entries ahead of it, nearest first. There is always a current entry.
\<close>

record history =
  behind :: "string list"
  current :: string
  ahead :: "string list"

definition history_length :: "history \<Rightarrow> nat" where
  "history_length h = length (behind h) + 1 + length (ahead h)"

text \<open>
  \<^verbatim>\<open>history.replaceState\<close> overwrites the current entry; \<^verbatim>\<open>history.pushState\<close> drops
  the entries above the current one and appends a new current entry.
\<close>

definition replaceState :: "string \<Rightarrow> history \<Rightarrow> history" where
  "replaceState url h = h\<lparr>current := url\<rparr>"

definition pushState :: "string \<Rightarrow> history \<Rightarrow> history" where
  "pushState url h = \<lparr>behind = current h # behind h, current = url, ahead = []\<rparr>"

text \<open>
  Traversal by a number of entries, back (a negative \<^verbatim>\<open>delta\<close>) or forward; there is
  none when the stack is too short in that direction.
\<close>

fun go_back :: "nat \<Rightarrow> history \<Rightarrow> history option" where
  "go_back 0 h = Some h"
| "go_back (Suc n) h =
     (case behind h of
        [] \<Rightarrow> None
      | b # bs \<Rightarrow> go_back n \<lparr>behind = bs, current = b, ahead = current h # ahead h\<rparr>)"

fun go_forward :: "nat \<Rightarrow> history \<Rightarrow> history option" where
  "go_forward 0 h = Some h"
| "go_forward (Suc n) h =
     (case ahead h of
        [] \<Rightarrow> None
      | f # fs \<Rightarrow> go_forward n \<lparr>behind = current h # behind h, current = f, ahead = fs\<rparr>)"

definition traverse :: "int \<Rightarrow> history \<Rightarrow> history option" where
  "traverse delta h =
     (if delta < 0 then go_back (nat (- delta)) h else go_forward (nat delta) h)"

text \<open>\<^verbatim>\<open>history.go(delta)\<close> does nothing when \<^verbatim>\<open>delta\<close> is out of range.\<close>

definition go :: "int \<Rightarrow> history \<Rightarrow> history" where
  "go delta h = (case traverse delta h of None \<Rightarrow> h | Some h' \<Rightarrow> h')"

text \<open>
  The navigations the guards issue: \<^verbatim>\<open>window.history.pushState(null, '', url)\<close>,
  \<^verbatim>\<open>navigate(to, { replace: true })\<close> and \<^verbatim>\<open>navigate(delta)\<close>, and what each does to
  the history stack.
\<close>

datatype command = PushState string | NavigateReplace string | NavigateDelta int

fun perform :: "command \<Rightarrow> history \<Rightarrow> history" where
  "perform (PushState url) h = pushState url h"
| "perform (NavigateReplace to) h = replaceState to h"
| "perform (NavigateDelta delta) h = go delta h"

fun is_replace :: "command \<Rightarrow> bool" where
  "is_replace (NavigateReplace to) = True"
| "is_replace (PushState url) = False"
| "is_replace (NavigateDelta delta) = False"

text \<open>
  The \<^verbatim>\<open>popstate\<close> listeners of \<^verbatim>\<open>window\<close>. A listener is a closure; each run of an
  effect creates a new one, told apart by its identity. \<^verbatim>\<open>addEventListener\<close> ignores a
  listener that is already registered, \<^verbatim>\<open>removeEventListener\<close> removes the listener
  it is given and no other.
\<close>

record closure =
  ident :: nat
  captured :: string

record browser =
  hist :: history
  popstate_listeners :: "nat list"
  closures :: nat

definition addEventListener :: "nat \<Rightarrow> browser \<Rightarrow> browser" where
  "addEventListener l b =
     (if l \<in> set (popstate_listeners b) then b
      else b\<lparr>popstate_listeners := popstate_listeners b @ [l]\<rparr>)"

definition removeEventListener :: "nat \<Rightarrow> browser \<Rightarrow> browser" where
  "removeEventListener l b = b\<lparr>popstate_listeners := removeAll l (popstate_listeners b)\<rparr>"

text \<open>
  An effect returns its cleanup, or nothing. The cleanups of the three \<^verbatim>\<open>popstate\<close>
  effects all remove the listener the effect registered, so a cleanup is given by that
  listener.
\<close>

definition cleanup :: "closure option \<Rightarrow> browser \<Rightarrow> browser" where
  "cleanup c b =
     (case c of
        None \<Rightarrow> b
      | Some handlePopState \<Rightarrow> removeEventListener (ident handlePopState) b)"

text \<open>
  The life of an effect whose dependencies change with the pathname: it runs at mount,
  at every later pathname after the cleanup of the run before, and at unmount only the
  last cleanup runs.
\<close>

fun renders ::
  "(string \<Rightarrow> browser \<Rightarrow> closure option \<times> browser) \<Rightarrow> string list \<Rightarrow>
     closure option \<times> browser \<Rightarrow> closure option \<times> browser" where
  "renders effect [] cb = cb"
| "renders effect (pathname # pathnames) cb =
     renders effect pathnames (effect pathname (cleanup (fst cb) (snd cb)))"

definition unmount :: "closure option \<times> browser \<Rightarrow> browser" where
  "unmount cb = cleanup (fst cb) (snd cb)"

text \<open>
  The router hears of a traversal of the history before the handlers the guards
  register. It consults the blocker callback with its own location and the location
  landed on. When the callback vetoes, the router keeps its location and calls
  \<^verbatim>\<open>history.go(-delta)\<close>, which takes the browser back by the distance it came once the
  handlers of the event have run; the component does not render at a new pathname.
  Otherwise the router takes the location landed on and the component renders at it.
  (The entries are the router's own, so the distance \<^verbatim>\<open>delta\<close> of a traversal is known
  to it.)
\<close>

text \<open>
  Consecutive blocked attempts of the user to traverse the history: each lands on an
  entry outside the pattern, and \<open>landing delta landed\<close> is the history the component
  and the router leave behind. There is no result when an attempt is not a blocked one
  (no entry to land on, or the entry matches the pattern). A blocked attempt from a
  location inside the pattern ends at that location, so the component does not render
  at a new pathname between two attempts and answers each of them in the same state.
\<close>

fun blocked_attempts ::
  "pattern \<Rightarrow> (int \<Rightarrow> history \<Rightarrow> history) \<Rightarrow> int list \<Rightarrow> history \<Rightarrow> history option" where
  "blocked_attempts allowedPattern landing [] h = Some h"
| "blocked_attempts allowedPattern landing (delta # deltas) h =
     (case traverse delta h of
        None \<Rightarrow> None
      | Some landed \<Rightarrow>
          if allowedPattern (current landed) then None
          else blocked_attempts allowedPattern landing deltas (landing delta landed))"

section \<open>History sentinel of RouteBlocker\<close>

text \<open>
  The effect that handles browser back and forward. With the handler registered, it
  returns the cleanup that removes it.
\<close>

definition RouteBlocker_popstateEffect ::
  "bool \<Rightarrow> pattern \<Rightarrow> string \<Rightarrow> browser \<Rightarrow> closure option \<times> browser" where
  "RouteBlocker_popstateEffect enabled allowedPattern location_pathname b =
     (if \<not> enabled then (None, b)
      else let isCurrentValid = allowedPattern location_pathname in
        if \<not> isCurrentValid then (None, b)
        else let handlePopState = \<lparr>ident = closures b, captured = location_pathname\<rparr>
             in (Some handlePopState,
                 addEventListener (ident handlePopState) (b\<lparr>closures := Suc (closures b)\<rparr>)))"

definition RouteBlocker_handlePopState :: "pattern \<Rightarrow> string \<Rightarrow> history \<Rightarrow> command list" where
  "RouteBlocker_handlePopState allowedPattern location_pathname h =
     (let newPath = current h
      in if \<not> allowedPattern newPath then [NavigateReplace location_pathname] else [])"

text \<open>
  The navigations the component issues on an out-of-band change of location: those of
  the registered handler, if there is one. The history the handler reads is the one
  after the change. (\<^verbatim>\<open>RouteBlocker\<close> has no effect that navigates.)
\<close>

definition RouteBlocker_outOfBand :: "pattern \<Rightarrow> closure option \<Rightarrow> history \<Rightarrow> command list" where
  "RouteBlocker_outOfBand allowedPattern handler h =
     (case handler of
        None \<Rightarrow> []
      | Some handlePopState \<Rightarrow> RouteBlocker_handlePopState allowedPattern (captured handlePopState) h)"

text \<open>
  The history after an out-of-band traversal by \<^verbatim>\<open>delta\<close> that landed on \<open>h\<close>, for a
  component that last rendered at \<^verbatim>\<open>location_pathname\<close>. The handler's navigation is
  performed on the entry landed on. The component's own blocker callback is the one the
  router consults: on a veto the router then goes back by \<^verbatim>\<open>delta\<close>. (The handler's
  \<^verbatim>\<open>navigate\<close> to the pathname the router is at is itself never vetoed.)
\<close>

definition RouteBlocker_landing ::
  "bool \<Rightarrow> pattern \<Rightarrow> string \<Rightarrow> closure option \<Rightarrow> int \<Rightarrow> history \<Rightarrow> history" where
  "RouteBlocker_landing enabled allowedPattern location_pathname handler delta h =
     (let h' = fold perform (RouteBlocker_outOfBand allowedPattern handler h) h
      in if RouteBlocker_shouldBlock enabled allowedPattern location_pathname (current h)
         then go (- delta) h'
         else h')"

section \<open>usePreventNavigation\<close>

text \<open>
  The effect of the hook. Past its early returns it pushes the current path onto the
  history, registers the handler and returns the cleanup that removes it. The handler
  closes over the variable \<^verbatim>\<open>currentPath\<close>, which it also assigns.
\<close>

definition usePreventNavigation_effect ::
  "bool \<Rightarrow> pattern \<Rightarrow> string \<Rightarrow> browser \<Rightarrow> closure option \<times> browser" where
  "usePreventNavigation_effect enabled allowedPattern location_pathname b =
     (if \<not> enabled then (None, b)
      else let currentPath = location_pathname;
               isCurrentPathValid = allowedPattern currentPath in
        if \<not> isCurrentPathValid then (None, b)
        else let handlePopState = \<lparr>ident = closures b, captured = currentPath\<rparr>;
                 b1 = b\<lparr>hist := pushState currentPath (hist b)\<rparr>
             in (Some handlePopState,
                 addEventListener (ident handlePopState) (b1\<lparr>closures := Suc (closures b1)\<rparr>)))"

text \<open>
  The handler returns the new value of \<^verbatim>\<open>currentPath\<close> and the navigations it issues.
  (\<^verbatim>\<open>event.preventDefault()\<close> has no effect on a \<^verbatim>\<open>popstate\<close> event, which cannot be
  cancelled.)
\<close>

definition usePreventNavigation_handlePopState ::
  "pattern \<Rightarrow> string \<Rightarrow> history \<Rightarrow> string \<times> command list" where
  "usePreventNavigation_handlePopState allowedPattern currentPath h =
     (let newPath = current h
      in if \<not> allowedPattern newPath
         then (currentPath, [PushState currentPath, NavigateReplace currentPath])
         else (newPath, []))"

text \<open>
  One out-of-band change of location, seen by a component that calls the hook and last
  rendered at \<^verbatim>\<open>location_pathname\<close>; the history of the browser is the one after the
  change. The registered handler, if any, is notified and its navigations are
  performed. The component then renders at the pathname now current: when it differs
  from the pathname of the last render, the effect is cleaned up and runs again there.
\<close>

definition usePreventNavigation_popstate ::
  "bool \<Rightarrow> pattern \<Rightarrow> string \<Rightarrow> closure option \<times> browser \<Rightarrow> closure option \<times> browser" where
  "usePreventNavigation_popstate enabled allowedPattern location_pathname cb =
     (let handled =
            (case fst cb of
               None \<Rightarrow> (None, [])
             | Some handlePopState \<Rightarrow>
                 (let r = usePreventNavigation_handlePopState allowedPattern
                            (captured handlePopState) (hist (snd cb))
                  in (Some (handlePopState\<lparr>captured := fst r\<rparr>), snd r)));
          b = (snd cb)\<lparr>hist := fold perform (snd handled) (hist (snd cb))\<rparr>;
          newPathname = current (hist b)
      in if newPathname = location_pathname then (fst handled, b)
         else usePreventNavigation_effect enabled allowedPattern newPathname
                (cleanup (fst handled) b))"

text \<open>
  The history after an out-of-band traversal that landed on \<open>h\<close>, for a component in
  the state \<open>cb\<close>. The hook installs no blocker, so the router never undoes the
  traversal and its distance plays no part.
\<close>

definition usePreventNavigation_landing ::
  "bool \<Rightarrow> pattern \<Rightarrow> string \<Rightarrow> closure option \<times> browser \<Rightarrow> int \<Rightarrow> history \<Rightarrow> history" where
  "usePreventNavigation_landing enabled allowedPattern location_pathname cb delta h =
     hist (snd (usePreventNavigation_popstate enabled allowedPattern location_pathname
                  (fst cb, (snd cb)\<lparr>hist := h\<rparr>)))"

section \<open>BuilderOnlyGuard\<close>

text \<open>
  The effect that tracks the last valid flow route: the new content of the ref
  \<^verbatim>\<open>lastValidFlowRoute\<close> after a render at \<^verbatim>\<open>currentPath\<close>.
\<close>

definition BuilderOnlyGuard_trackEffect :: "string \<Rightarrow> string option \<Rightarrow> string option" where
  "BuilderOnlyGuard_trackEffect currentPath lastValidFlowRoute =
     (let isCurrentValid = test ALLOWED_FLOW_PATTERN currentPath
      in if isCurrentValid then Some currentPath else lastValidFlowRoute)"

text \<open>The ref after the component has rendered at each of a list of pathnames in turn.\<close>

definition BuilderOnlyGuard_observe :: "string list \<Rightarrow> string option \<Rightarrow> string option" where
  "BuilderOnlyGuard_observe pathnames lastValidFlowRoute =
     fold BuilderOnlyGuard_trackEffect pathnames lastValidFlowRoute"

text \<open>
  The effect that corrects a render at a non-flow route: its \<^verbatim>\<open>console.warn\<close> lines and
  the navigation it issues. The test \<^verbatim>\<open>if (lastValidFlowRoute.current)\<close> is false for
  \<^verbatim>\<open>null\<close> and for the empty string.
\<close>

definition BuilderOnlyGuard_correctionEffect ::
  "bool \<Rightarrow> string \<Rightarrow> string option \<Rightarrow> (string \<times> string) list \<times> command list" where
  "BuilderOnlyGuard_correctionEffect ENABLE_BUILDER_ONLY_MODE currentPath lastValidFlowRoute =
     (let isCurrentValid = test ALLOWED_FLOW_PATTERN currentPath
      in if ENABLE_BUILDER_ONLY_MODE \<and> \<not> isCurrentValid
         then ([(''[BuilderOnlyGuard] Blocked access to non-flow route:'', currentPath)],
               (case lastValidFlowRoute of
                  None \<Rightarrow> [NavigateDelta (- 1)]
                | Some route \<Rightarrow>
                    if route \<noteq> [] then [NavigateReplace route] else [NavigateDelta (- 1)]))
         else ([], []))"

definition BuilderOnlyGuard_logEffect :: "string \<Rightarrow> blocker \<Rightarrow> string \<Rightarrow> warning list" where
  "BuilderOnlyGuard_logEffect NODE_ENV b location_pathname =
     (if state b = Blocked \<and> NODE_ENV = ''development''
      then [\<lparr>message = ''[BuilderOnlyGuard] Navigation blocked - builder-only mode is enabled'',
             attempted = location b, current = location_pathname\<rparr>]
      else [])"

definition BuilderOnlyGuard_popstateEffect ::
  "bool \<Rightarrow> string \<Rightarrow> browser \<Rightarrow> closure option \<times> browser" where
  "BuilderOnlyGuard_popstateEffect ENABLE_BUILDER_ONLY_MODE location_pathname b =
     (if \<not> ENABLE_BUILDER_ONLY_MODE then (None, b)
      else let isCurrentValid = test ALLOWED_FLOW_PATTERN location_pathname in
        if \<not> isCurrentValid then (None, b)
        else let handlePopState = \<lparr>ident = closures b, captured = location_pathname\<rparr>
             in (Some handlePopState,
                 addEventListener (ident handlePopState) (b\<lparr>closures := Suc (closures b)\<rparr>)))"

definition BuilderOnlyGuard_handlePopState :: "string \<Rightarrow> history \<Rightarrow> command list" where
  "BuilderOnlyGuard_handlePopState location_pathname h =
     (let newPath = current h
      in if \<not> test ALLOWED_FLOW_PATTERN newPath then [NavigateReplace location_pathname]
         else [])"

text \<open>
  The renders that follow a change of location, for a guard that last rendered at
  \<^verbatim>\<open>location_pathname\<close>. The tracking and correction effects depend on the pathname:
  they run when the component renders at a pathname other than that of the last
  render. A navigation the correction effect issues is performed; when it changes the
  location the component renders again, and so on until a render issues nothing or its
  navigation changes nothing (\<^verbatim>\<open>navigate(-1)\<close> on the first entry). The result is the
  ref, the history and every navigation issued. (No blocker vetoes these navigations:
  they leave a pathname outside the pattern.)
\<close>

function BuilderOnlyGuard_settle ::
  "bool \<Rightarrow> string \<Rightarrow> string option \<Rightarrow> history \<Rightarrow> string option \<times> history \<times> command list" where
  "BuilderOnlyGuard_settle ENABLE_BUILDER_ONLY_MODE location_pathname lastValidFlowRoute h =
     (if current h = location_pathname then (lastValidFlowRoute, h, [])
      else
        let ref = BuilderOnlyGuard_trackEffect (current h) lastValidFlowRoute;
            issued = snd (BuilderOnlyGuard_correctionEffect ENABLE_BUILDER_ONLY_MODE (current h) ref)
        in if fold perform issued h = h then (ref, h, issued)
           else (case BuilderOnlyGuard_settle ENABLE_BUILDER_ONLY_MODE (current h) ref
                        (fold perform issued h) of
                   (ref', h', later) \<Rightarrow> (ref', h', issued @ later)))"
  by pat_completeness auto
termination
  by (relation "measure (\<lambda>(e, l, r, h).
          2 * length (behind h) +
          (if r = Some (current h) \<or> test ALLOWED_FLOW_PATTERN (current h) then 0 else 1))")
     (auto simp: BuilderOnlyGuard_correctionEffect_def BuilderOnlyGuard_trackEffect_def
        go_def traverse_def replaceState_def
        split: option.splits if_splits list.splits)

declare BuilderOnlyGuard_settle.simps [simp del]

text \<open>
  One out-of-band change of location, seen by a guard that last rendered at
  \<^verbatim>\<open>location_pathname\<close>: every navigation the guard issues. The registered handler, if
  any, is notified first and its navigations are performed on the entry landed on.
  When the guard's blocker callback vetoes the traversal the router keeps its location
  and the component does not render at a new pathname; otherwise the component renders
  at the pathname now current.
\<close>

definition BuilderOnlyGuard_outOfBand ::
  "bool \<Rightarrow> string \<Rightarrow> string option \<Rightarrow> closure option \<Rightarrow> history \<Rightarrow> command list" where
  "BuilderOnlyGuard_outOfBand ENABLE_BUILDER_ONLY_MODE location_pathname lastValidFlowRoute handler h =
     (let handled =
            (case handler of
               None \<Rightarrow> []
             | Some handlePopState \<Rightarrow> BuilderOnlyGuard_handlePopState (captured handlePopState) h)
      in if BuilderOnlyGuard_shouldBlock ENABLE_BUILDER_ONLY_MODE location_pathname (current h)
         then handled
         else handled @
              snd (snd (BuilderOnlyGuard_settle ENABLE_BUILDER_ONLY_MODE location_pathname
                          lastValidFlowRoute (fold perform handled h))))"

text \<open>
  The history that the same change of location ends in, the traversal having been by
  \<^verbatim>\<open>delta\<close>: on a veto the router goes back by \<^verbatim>\<open>delta\<close> after the handler's navigation.
\<close>

definition BuilderOnlyGuard_landing ::
  "bool \<Rightarrow> string \<Rightarrow> string option \<Rightarrow> closure option \<Rightarrow> int \<Rightarrow> history \<Rightarrow> history" where
  "BuilderOnlyGuard_landing ENABLE_BUILDER_ONLY_MODE location_pathname lastValidFlowRoute handler delta h =
     (let handled =
            (case handler of
               None \<Rightarrow> []
             | Some handlePopState \<Rightarrow> BuilderOnlyGuard_handlePopState (captured handlePopState) h);
          h' = fold perform handled h
      in if BuilderOnlyGuard_shouldBlock ENABLE_BUILDER_ONLY_MODE location_pathname (current h)
         then go (- delta) h'
         else fst (snd (BuilderOnlyGuard_settle ENABLE_BUILDER_ONLY_MODE location_pathname
                          lastValidFlowRoute h')))"

section \<open>Invariant of the listener registry\<close>

text \<open>
  While a component is mounted, the listeners of \<^verbatim>\<open>window\<close> are those that were there
  before it mounted, followed by the handler of its current effect run, if that run
  registered one; every identity in use is below the count of closures created so far.
\<close>

definition held :: "nat list \<Rightarrow> closure option \<times> browser \<Rightarrow> bool" where
  "held ls cb =
     ((\<forall>l \<in> set ls. l < closures (snd cb)) \<and>
      (case fst cb of
         None \<Rightarrow> popstate_listeners (snd cb) = ls
       | Some handlePopState \<Rightarrow>
           popstate_listeners (snd cb) = ls @ [ident handlePopState] \<and>
           ident handlePopState \<notin> set ls \<and> ident handlePopState < closures (snd cb)))"

text \<open>
  What the three \<^verbatim>\<open>popstate\<close> effects have in common: a run either registers nothing
  and returns no cleanup, or registers one new closure and returns the cleanup for it.
\<close>

definition registers_fresh :: "(string \<Rightarrow> browser \<Rightarrow> closure option \<times> browser) \<Rightarrow> bool" where
  "registers_fresh effect =
     (\<forall>p b. case effect p b of
        (None, b') \<Rightarrow> popstate_listeners b' = popstate_listeners b \<and> closures b' = closures b
      | (Some c, b') \<Rightarrow>
          ident c = closures b \<and> closures b' = Suc (closures b) \<and>
          popstate_listeners b' = popstate_listeners (addEventListener (closures b) b))"

section \<open>Properties of the pattern matcher\<close>

lemma match_here_NoneOf_plus:
  "match_here [Plus (NoneOf cs)] s \<longleftrightarrow> (\<exists>c rest. s = c # rest \<and> c \<notin> set cs)"
  by (cases s) auto

lemma match_here_Char:
  "match_here (One (Char c) # r) p \<longleftrightarrow> (\<exists>s. p = c # s \<and> match_here r s)"
  by (cases p) auto

lemma test_ALLOWED_FLOW_PATTERN:
  "test ALLOWED_FLOW_PATTERN p \<longleftrightarrow>
     (\<exists>c rest. p = ''/flow/'' @ c # rest \<and> c \<noteq> CHR ''/'')"
  unfolding test_def ALLOWED_FLOW_PATTERN_def match_here_Char match_here_NoneOf_plus
  by auto

section \<open>Properties of the tracker\<close>

lemma observe_last_valid:
  "BuilderOnlyGuard_observe pathnames r =
     (if filter (test ALLOWED_FLOW_PATTERN) pathnames = [] then r
      else Some (last (filter (test ALLOWED_FLOW_PATTERN) pathnames)))"
  unfolding BuilderOnlyGuard_observe_def
  by (induction pathnames arbitrary: r) (simp_all add: BuilderOnlyGuard_trackEffect_def)

lemma observe_valid:
  "BuilderOnlyGuard_observe pathnames None = Some route \<Longrightarrow> test ALLOWED_FLOW_PATTERN route"
proof -
  assume a: "BuilderOnlyGuard_observe pathnames None = Some route"
  then have ne: "filter (test ALLOWED_FLOW_PATTERN) pathnames \<noteq> []"
    and "route = last (filter (test ALLOWED_FLOW_PATTERN) pathnames)"
    by (auto simp: observe_last_valid split: if_splits)
  then have "route \<in> set (filter (test ALLOWED_FLOW_PATTERN) pathnames)"
    using last_in_set by blast
  then show ?thesis by simp
qed

lemma valid_nonempty: "test ALLOWED_FLOW_PATTERN route \<Longrightarrow> route \<noteq> []"
  by (auto simp: test_ALLOWED_FLOW_PATTERN)

lemma observe_at_valid:
  assumes "pathnames \<noteq> []" "test ALLOWED_FLOW_PATTERN (last pathnames)"
  shows "BuilderOnlyGuard_observe pathnames r = Some (last pathnames)"
proof -
  obtain xs x where p: "pathnames = xs @ [x]" using assms(1) by (metis rev_exhaust)
  with assms(2) show ?thesis
    by (simp add: BuilderOnlyGuard_observe_def BuilderOnlyGuard_trackEffect_def)
qed

section \<open>Properties of the listener registry\<close>

lemma cleanup_held:
  assumes "held ls cb"
  shows "popstate_listeners (cleanup (fst cb) (snd cb)) = ls"
    and "closures (cleanup (fst cb) (snd cb)) = closures (snd cb)"
  using assms
  by (auto simp: held_def cleanup_def removeEventListener_def split: option.splits)

lemma effect_held:
  assumes "registers_fresh effect" "popstate_listeners b = ls" "\<forall>l \<in> set ls. l < closures b"
  shows "held ls (effect p b)"
proof (cases "effect p b")
  case (Pair c b')
  note * = assms(1) [unfolded registers_fresh_def, rule_format, of b p]
  show ?thesis
  proof (cases c)
    case None
    with Pair * assms(2,3) show ?thesis by (simp add: held_def)
  next
    case (Some cl)
    with Pair * have i: "ident cl = closures b" and n: "closures b' = Suc (closures b)"
      and l: "popstate_listeners b' = popstate_listeners (addEventListener (closures b) b)"
      by simp_all
    from assms(2,3) have "closures b \<notin> set (popstate_listeners b)" by auto
    with l assms(2) have "popstate_listeners b' = ls @ [closures b]"
      by (simp add: addEventListener_def)
    with Pair Some i n assms(2,3) show ?thesis
      by (auto simp: held_def less_Suc_eq)
  qed
qed

lemma renders_held:
  assumes "registers_fresh effect" "held ls cb"
  shows "held ls (renders effect pathnames cb)"
  using assms(2)
proof (induction pathnames arbitrary: cb)
  case Nil
  then show ?case by simp
next
  case (Cons p ps)
  have "held ls (effect p (cleanup (fst cb) (snd cb)))"
  proof (rule effect_held [OF assms(1)])
    show "popstate_listeners (cleanup (fst cb) (snd cb)) = ls"
      using Cons.prems by (rule cleanup_held)
    show "\<forall>l\<in>set ls. l < closures (cleanup (fst cb) (snd cb))"
      using Cons.prems cleanup_held(2) [OF Cons.prems] by (simp add: held_def)
  qed
  then show ?case using Cons.IH by simp
qed

lemma unmount_renders:
  assumes "registers_fresh effect" "\<forall>l \<in> set (popstate_listeners b). l < closures b"
  shows "popstate_listeners (unmount (renders effect pathnames (None, b))) = popstate_listeners b"
proof -
  have "held (popstate_listeners b) (None, b)" using assms(2) by (simp add: held_def)
  then have "held (popstate_listeners b) (renders effect pathnames (None, b))"
    by (rule renders_held [OF assms(1)])
  then show ?thesis unfolding unmount_def by (rule cleanup_held)
qed

lemma RouteBlocker_registers_fresh:
  "registers_fresh (RouteBlocker_popstateEffect enabled allowedPattern)"
  by (simp add: registers_fresh_def RouteBlocker_popstateEffect_def Let_def addEventListener_def)

lemma BuilderOnlyGuard_registers_fresh:
  "registers_fresh (BuilderOnlyGuard_popstateEffect enabled)"
  by (simp add: registers_fresh_def BuilderOnlyGuard_popstateEffect_def Let_def addEventListener_def)

lemma usePreventNavigation_registers_fresh:
  "registers_fresh (usePreventNavigation_effect enabled allowedPattern)"
  by (simp add: registers_fresh_def usePreventNavigation_effect_def Let_def addEventListener_def)

section \<open>Properties of the history stack\<close>

lemma go_back_length:
  "go_back n h = Some h' \<Longrightarrow>
     history_length h' = history_length h \<and> length (behind h') + n = length (behind h)"
  by (induction n h rule: go_back.induct) (auto simp: history_length_def split: list.splits)

lemma traverse_back_behind:
  "traverse delta h = Some h' \<Longrightarrow> delta < 0 \<Longrightarrow> length (behind h') < length (behind h)"
  by (auto simp: traverse_def dest!: go_back_length)

lemma go_forward_Suc:
  "go_forward (Suc n) h = (case go_forward n h of None \<Rightarrow> None | Some h' \<Rightarrow> go_forward (Suc 0) h')"
  by (induction n h rule: go_forward.induct) (auto split: list.splits option.splits)

lemma go_back_Suc:
  "go_back (Suc n) h = (case go_back n h of None \<Rightarrow> None | Some h' \<Rightarrow> go_back (Suc 0) h')"
  by (induction n h rule: go_back.induct) (auto split: list.splits option.splits)

lemma go_back_then_forward:
  "go_back n h = Some h1 \<Longrightarrow>
     \<exists>h2. go_forward n (h1\<lparr>current := x\<rparr>) = Some h2 \<and> (0 < n \<longrightarrow> current h2 = current h) \<and>
          ahead h2 = ahead h \<and> length (behind h2) = length (behind h)"
proof (induction n arbitrary: h)
  case 0
  then show ?case by auto
next
  case (Suc n)
  from Suc.prems obtain b bs where bh: "behind h = b # bs"
    and g: "go_back n \<lparr>behind = bs, current = b, ahead = current h # ahead h\<rparr> = Some h1"
    by (auto split: list.splits)
  from Suc.IH [OF g] obtain h2 where f: "go_forward n (h1\<lparr>current := x\<rparr>) = Some h2"
    and a: "ahead h2 = current h # ahead h" and l: "length (behind h2) = length bs"
    by auto
  show ?case
    unfolding go_forward_Suc [of n] using f a l bh by simp
qed

lemma go_forward_then_back:
  "go_forward n h = Some h1 \<Longrightarrow>
     \<exists>h2. go_back n (h1\<lparr>current := x\<rparr>) = Some h2 \<and> (0 < n \<longrightarrow> current h2 = current h) \<and>
          behind h2 = behind h \<and> length (ahead h2) = length (ahead h)"
proof (induction n arbitrary: h)
  case 0
  then show ?case by auto
next
  case (Suc n)
  from Suc.prems obtain f fs where fh: "ahead h = f # fs"
    and g: "go_forward n \<lparr>behind = current h # behind h, current = f, ahead = fs\<rparr> = Some h1"
    by (auto split: list.splits)
  from Suc.IH [OF g] obtain h2 where b: "go_back n (h1\<lparr>current := x\<rparr>) = Some h2"
    and a: "behind h2 = current h # behind h" and l: "length (ahead h2) = length fs"
    by auto
  show ?case
    unfolding go_back_Suc [of n] using b a l fh by simp
qed

lemma traverse_and_return:
  assumes "traverse delta h = Some landed" "delta \<noteq> 0"
  shows "current (go (- delta) (replaceState x landed)) = current h"
    and "history_length (go (- delta) (replaceState x landed)) = history_length h"
proof -
  have "\<exists>h2. traverse (- delta) (replaceState x landed) = Some h2 \<and> current h2 = current h \<and>
          history_length h2 = history_length h"
  proof (cases "delta < 0")
    case True
    with assms(1) have "go_back (nat (- delta)) h = Some landed" by (simp add: traverse_def)
    from go_back_then_forward [OF this, of x] True show ?thesis
      by (auto simp: traverse_def replaceState_def history_length_def)
  next
    case False
    with assms have pos: "0 < delta" by simp
    with assms(1) have "go_forward (nat delta) h = Some landed" by (simp add: traverse_def)
    from go_forward_then_back [OF this, of x] pos show ?thesis
      by (auto simp: traverse_def replaceState_def history_length_def)
  qed
  then show "current (go (- delta) (replaceState x landed)) = current h"
    and "history_length (go (- delta) (replaceState x landed)) = history_length h"
    by (auto simp: go_def)
qed

lemma landed_elsewhere:
  assumes "traverse delta h = Some landed" "current landed \<noteq> current h"
  shows "delta \<noteq> 0"
proof
  assume "delta = 0"
  with assms(1) have "landed = h" by (simp add: traverse_def)
  with assms(2) show False by simp
qed

section \<open>Properties of the renders after a change of location\<close>

lemma settle_accepted:
  "\<not> enabled \<or> test ALLOWED_FLOW_PATTERN (current h) \<Longrightarrow>
     snd (BuilderOnlyGuard_settle enabled location_pathname lastValidFlowRoute h) = (h, [])"
  by (subst BuilderOnlyGuard_settle.simps)
     (auto simp: BuilderOnlyGuard_correctionEffect_def Let_def)

lemma settle_replace:
  assumes "\<not> test ALLOWED_FLOW_PATTERN (current h)" "current h \<noteq> location_pathname"
    "test ALLOWED_FLOW_PATTERN route"
  shows "BuilderOnlyGuard_settle True location_pathname (Some route) h
           = (Some route, replaceState route h, [NavigateReplace route])"
proof -
  have ne: "route \<noteq> []" using assms(3) by (rule valid_nonempty)
  have diff: "route \<noteq> current h" using assms(1,3) by auto
  have after: "BuilderOnlyGuard_settle True (current h) (Some route) (replaceState route h)
           = (Some route, replaceState route h, [])"
    using assms(3) diff
    by (subst BuilderOnlyGuard_settle.simps)
       (simp add: BuilderOnlyGuard_correctionEffect_def BuilderOnlyGuard_trackEffect_def
          replaceState_def Let_def)
  have changed: "replaceState route h \<noteq> h"
    using diff by (metis history.select_convs(2) history.surjective history.update_convs(2) replaceState_def)
  show ?thesis
    using assms(1,2) ne after changed
    by (subst BuilderOnlyGuard_settle.simps)
       (simp add: BuilderOnlyGuard_correctionEffect_def BuilderOnlyGuard_trackEffect_def Let_def)
qed

lemma settle_steps_back:
  "set (snd (snd (BuilderOnlyGuard_settle True location_pathname None h))) \<subseteq> {NavigateDelta (- 1)}"
proof (induction "length (behind h)" arbitrary: h location_pathname rule: less_induct)
  case less
  show ?case
  proof (cases "current h = location_pathname \<or> test ALLOWED_FLOW_PATTERN (current h)")
    case True
    then show ?thesis
      by (subst BuilderOnlyGuard_settle.simps)
         (auto simp: BuilderOnlyGuard_correctionEffect_def BuilderOnlyGuard_trackEffect_def Let_def)
  next
    case False
    then have track: "BuilderOnlyGuard_trackEffect (current h) None = None"
      and issued: "snd (BuilderOnlyGuard_correctionEffect True (current h) None) = [NavigateDelta (- 1)]"
      by (simp_all add: BuilderOnlyGuard_trackEffect_def BuilderOnlyGuard_correctionEffect_def)
    show ?thesis
    proof (cases "go (- 1) h = h")
      case True
      with False track issued show ?thesis
        by (subst BuilderOnlyGuard_settle.simps) (simp add: Let_def)
    next
      case moved: False
      then have "length (behind (go (- 1) h)) < length (behind h)"
        by (auto simp: go_def traverse_def split: list.splits)
      from less [OF this, of "current h"] False track issued moved show ?thesis
        by (subst BuilderOnlyGuard_settle.simps) (auto simp: Let_def split: prod.splits)
    qed
  qed
qed

lemma settle_first_step:
  assumes "\<not> test ALLOWED_FLOW_PATTERN (current h)" "current h \<noteq> location_pathname"
  shows "NavigateDelta (- 1) \<in> set (snd (snd (BuilderOnlyGuard_settle True location_pathname None h)))"
  using assms
  by (subst BuilderOnlyGuard_settle.simps)
     (auto simp: BuilderOnlyGuard_correctionEffect_def BuilderOnlyGuard_trackEffect_def Let_def
        split: prod.splits)

lemma settle_one_step:
  assumes "\<not> test ALLOWED_FLOW_PATTERN (current h)" "current h \<noteq> location_pathname"
    "behind h = p # ps" "test ALLOWED_FLOW_PATTERN p \<or> p = current h"
  shows "snd (BuilderOnlyGuard_settle True location_pathname None h)
           = (\<lparr>behind = ps, current = p, ahead = current h # ahead h\<rparr>, [NavigateDelta (- 1)])"
proof -
  let ?h' = "\<lparr>behind = ps, current = p, ahead = current h # ahead h\<rparr>"
  have g: "go (- 1) h = ?h'" using assms(3) by (simp add: go_def traverse_def)
  have changed: "?h' \<noteq> h" using assms(3)
    by (metis history.select_convs(1) list.inject not_Cons_self2)
  have after: "snd (BuilderOnlyGuard_settle True (current h) None ?h') = (?h', [])"
    using assms(4)
    by (subst BuilderOnlyGuard_settle.simps)
       (auto simp: BuilderOnlyGuard_correctionEffect_def BuilderOnlyGuard_trackEffect_def Let_def)
  show ?thesis
    using assms(1,2) g changed after
    by (subst BuilderOnlyGuard_settle.simps)
       (auto simp: BuilderOnlyGuard_correctionEffect_def BuilderOnlyGuard_trackEffect_def Let_def
          split: prod.splits)
qed

lemma settle_first_entry:
  assumes "\<not> test ALLOWED_FLOW_PATTERN (current h)" "current h \<noteq> location_pathname"
    "behind h = [p]"
  shows "fst (snd (BuilderOnlyGuard_settle True location_pathname None h))
           = \<lparr>behind = [], current = p, ahead = current h # ahead h\<rparr>"
proof -
  let ?h' = "\<lparr>behind = [], current = p, ahead = current h # ahead h\<rparr>"
  have g: "go (- 1) h = ?h'" using assms(3) by (simp add: go_def traverse_def)
  have changed: "?h' \<noteq> h" using assms(3)
    by (metis history.select_convs(1) list.distinct(1))
  have after: "fst (snd (BuilderOnlyGuard_settle True (current h) None ?h')) = ?h'"
    by (subst BuilderOnlyGuard_settle.simps)
       (auto simp: BuilderOnlyGuard_correctionEffect_def BuilderOnlyGuard_trackEffect_def Let_def
          go_def traverse_def)
  show ?thesis
    using assms(1,2) g changed after
    by (subst BuilderOnlyGuard_settle.simps)
       (auto simp: BuilderOnlyGuard_correctionEffect_def BuilderOnlyGuard_trackEffect_def Let_def
          split: prod.splits)
qed

section \<open>Properties of the veto on a traversal\<close>

lemma RouteBlocker_corrections_not_vetoed:
  "\<not> RouteBlocker_shouldBlock enabled allowedPattern location_pathname location_pathname"
  "\<not> allowedPattern location_pathname \<Longrightarrow>
     \<not> RouteBlocker_shouldBlock enabled allowedPattern location_pathname nextPath"
  by (simp_all add: RouteBlocker_shouldBlock_def)

lemma BuilderOnlyGuard_corrections_not_vetoed:
  "\<not> BuilderOnlyGuard_shouldBlock enabled location_pathname location_pathname"
  "\<not> test ALLOWED_FLOW_PATTERN location_pathname \<Longrightarrow>
     \<not> BuilderOnlyGuard_shouldBlock enabled location_pathname nextPath"
  by (simp_all add: BuilderOnlyGuard_shouldBlock_def)

lemma BuilderOnlyGuard_vetoed:
  assumes "test ALLOWED_FLOW_PATTERN location_pathname"
    "\<not> test ALLOWED_FLOW_PATTERN (current landed)"
  shows "BuilderOnlyGuard_outOfBand True location_pathname lastValidFlowRoute
           (fst (BuilderOnlyGuard_popstateEffect True location_pathname b)) landed
         = [NavigateReplace location_pathname]"
    and "BuilderOnlyGuard_landing True location_pathname lastValidFlowRoute
           (fst (BuilderOnlyGuard_popstateEffect True location_pathname b)) delta landed
         = go (- delta) (replaceState location_pathname landed)"
  using assms
  by (simp_all add: BuilderOnlyGuard_outOfBand_def BuilderOnlyGuard_landing_def
        BuilderOnlyGuard_popstateEffect_def BuilderOnlyGuard_handlePopState_def
        BuilderOnlyGuard_shouldBlock_def Let_def)

lemma BuilderOnlyGuard_not_vetoed:
  assumes "\<not> test ALLOWED_FLOW_PATTERN location_pathname"
  shows "BuilderOnlyGuard_outOfBand True location_pathname lastValidFlowRoute
           (fst (BuilderOnlyGuard_popstateEffect True location_pathname b)) landed
         = snd (snd (BuilderOnlyGuard_settle True location_pathname lastValidFlowRoute landed))"
    and "BuilderOnlyGuard_landing True location_pathname lastValidFlowRoute
           (fst (BuilderOnlyGuard_popstateEffect True location_pathname b)) delta landed
         = fst (snd (BuilderOnlyGuard_settle True location_pathname lastValidFlowRoute landed))"
  using assms
  by (simp_all add: BuilderOnlyGuard_outOfBand_def BuilderOnlyGuard_landing_def
        BuilderOnlyGuard_popstateEffect_def BuilderOnlyGuard_shouldBlock_def Let_def)

lemma RouteBlocker_vetoed:
  assumes "allowedPattern location_pathname" "\<not> allowedPattern (current landed)"
  shows "RouteBlocker_outOfBand allowedPattern
           (fst (RouteBlocker_popstateEffect True allowedPattern location_pathname b)) landed
         = [NavigateReplace location_pathname]"
    and "RouteBlocker_landing True allowedPattern location_pathname
           (fst (RouteBlocker_popstateEffect True allowedPattern location_pathname b)) delta landed
         = go (- delta) (replaceState location_pathname landed)"
  using assms
  by (simp_all add: RouteBlocker_outOfBand_def RouteBlocker_landing_def
        RouteBlocker_popstateEffect_def RouteBlocker_handlePopState_def
        RouteBlocker_shouldBlock_def Let_def)

lemma usePreventNavigation_blocked:
  assumes "allowedPattern location_pathname" "\<not> allowedPattern (current landed)"
  shows "snd (usePreventNavigation_handlePopState allowedPattern location_pathname landed)
         = [PushState location_pathname, NavigateReplace location_pathname]"
    and "usePreventNavigation_landing True allowedPattern location_pathname
           (usePreventNavigation_effect True allowedPattern location_pathname b) delta landed
         = replaceState location_pathname (pushState location_pathname landed)"
  using assms
  by (simp_all add: usePreventNavigation_landing_def usePreventNavigation_popstate_def
        usePreventNavigation_effect_def usePreventNavigation_handlePopState_def
        addEventListener_def replaceState_def pushState_def Let_def)

section \<open>Properties of consecutive blocked attempts\<close>

lemma blocked_attempts_returning:
  assumes landing: "\<And>delta h landed. current h = to \<Longrightarrow> traverse delta h = Some landed \<Longrightarrow>
                      \<not> allowedPattern (current landed) \<Longrightarrow>
                      current (landing delta landed) = to \<and>
                      history_length (landing delta landed) = history_length h"
  shows "current h = to \<Longrightarrow> blocked_attempts allowedPattern landing deltas h = Some h' \<Longrightarrow>
           current h' = to \<and> history_length h' = history_length h"
proof (induction deltas arbitrary: h)
  case Nil
  then show ?case by simp
next
  case (Cons delta deltas)
  from Cons.prems(2) obtain landed where t: "traverse delta h = Some landed"
    and v: "\<not> allowedPattern (current landed)"
    and rest: "blocked_attempts allowedPattern landing deltas (landing delta landed) = Some h'"
    by (auto split: option.splits if_splits)
  from landing [OF Cons.prems(1) t v] have c: "current (landing delta landed) = to"
    and l: "history_length (landing delta landed) = history_length h" by simp_all
  from Cons.IH [OF c rest] l show ?case by simp
qed

lemma blocked_attempts_pushing:
  assumes landing: "\<And>delta h landed. traverse delta h = Some landed \<Longrightarrow> delta < 0 \<Longrightarrow>
                      \<not> allowedPattern (current landed) \<Longrightarrow>
                      current (landing delta landed) = to \<and>
                      history_length (landing delta landed) \<le> history_length h"
  shows "current h = to \<Longrightarrow> blocked_attempts allowedPattern landing deltas h = Some h' \<Longrightarrow>
           \<forall>delta \<in> set deltas. delta < 0 \<Longrightarrow>
           current h' = to \<and> history_length h' \<le> history_length h"
proof (induction deltas arbitrary: h)
  case Nil
  then show ?case by simp
next
  case (Cons delta deltas)
  from Cons.prems(2) obtain landed where t: "traverse delta h = Some landed"
    and v: "\<not> allowedPattern (current landed)"
    and rest: "blocked_attempts allowedPattern landing deltas (landing delta landed) = Some h'"
    by (auto split: option.splits if_splits)
  from Cons.prems(3) have neg: "delta < 0" and negs: "\<forall>delta \<in> set deltas. delta < 0" by simp_all
  from landing [OF t neg v] have c: "current (landing delta landed) = to"
    and l: "history_length (landing delta landed) \<le> history_length h" by simp_all
  from Cons.IH [OF c rest negs] l show ?case by simp
qed

lemma BuilderOnlyGuard_attempt:
  assumes "test ALLOWED_FLOW_PATTERN location_pathname" "current h = location_pathname"
    "traverse delta h = Some landed" "\<not> test ALLOWED_FLOW_PATTERN (current landed)"
  shows "current (BuilderOnlyGuard_landing True location_pathname lastValidFlowRoute
           (fst (BuilderOnlyGuard_popstateEffect True location_pathname b)) delta landed)
         = location_pathname
       \<and> history_length (BuilderOnlyGuard_landing True location_pathname lastValidFlowRoute
           (fst (BuilderOnlyGuard_popstateEffect True location_pathname b)) delta landed)
         = history_length h"
proof -
  have "current landed \<noteq> current h" using assms(1,2,4) by auto
  with assms(3) have "delta \<noteq> 0" by (rule landed_elsewhere)
  with assms(3) have "current (go (- delta) (replaceState location_pathname landed)) = current h"
    and "history_length (go (- delta) (replaceState location_pathname landed)) = history_length h"
    by (rule traverse_and_return)+
  then show ?thesis using assms(2)
    by (simp add: BuilderOnlyGuard_vetoed(2) [OF assms(1,4)])
qed

lemma RouteBlocker_attempt:
  assumes "allowedPattern location_pathname" "current h = location_pathname"
    "traverse delta h = Some landed" "\<not> allowedPattern (current landed)"
  shows "current (RouteBlocker_landing True allowedPattern location_pathname
           (fst (RouteBlocker_popstateEffect True allowedPattern location_pathname b)) delta landed)
         = location_pathname
       \<and> history_length (RouteBlocker_landing True allowedPattern location_pathname
           (fst (RouteBlocker_popstateEffect True allowedPattern location_pathname b)) delta landed)
         = history_length h"
proof -
  have "current landed \<noteq> current h" using assms(1,2,4) by auto
  with assms(3) have "delta \<noteq> 0" by (rule landed_elsewhere)
  with assms(3) have "current (go (- delta) (replaceState location_pathname landed)) = current h"
    and "history_length (go (- delta) (replaceState location_pathname landed)) = history_length h"
    by (rule traverse_and_return)+
  then show ?thesis using assms(2)
    by (simp add: RouteBlocker_vetoed(2) [OF assms(1,4)])
qed

lemma usePreventNavigation_attempt:
  assumes "allowedPattern location_pathname"
    "traverse delta h = Some landed" "delta < 0" "\<not> allowedPattern (current landed)"
  shows "current (usePreventNavigation_landing True allowedPattern location_pathname
           (usePreventNavigation_effect True allowedPattern location_pathname b) delta landed)
         = location_pathname
       \<and> history_length (usePreventNavigation_landing True allowedPattern location_pathname
           (usePreventNavigation_effect True allowedPattern location_pathname b) delta landed)
         \<le> history_length h"
proof -
  have "length (behind landed) < length (behind h)"
    using assms(2,3) by (rule traverse_back_behind)
  then show ?thesis
    by (simp add: usePreventNavigation_blocked(2) [OF assms(1,4)] replaceState_def pushState_def
          history_length_def)
qed

lemma BuilderOnlyGuard_attempts:
  assumes "test ALLOWED_FLOW_PATTERN location_pathname" "current h = location_pathname"
    and "blocked_attempts (test ALLOWED_FLOW_PATTERN)
          (BuilderOnlyGuard_landing True location_pathname lastValidFlowRoute
             (fst (BuilderOnlyGuard_popstateEffect True location_pathname b))) deltas h = Some h'"
  shows "current h' = location_pathname \<and> history_length h' = history_length h"
proof -
  have "\<And>delta h landed. current h = location_pathname \<Longrightarrow> traverse delta h = Some landed \<Longrightarrow>
          \<not> test ALLOWED_FLOW_PATTERN (current landed) \<Longrightarrow>
          current (BuilderOnlyGuard_landing True location_pathname lastValidFlowRoute
             (fst (BuilderOnlyGuard_popstateEffect True location_pathname b)) delta landed)
            = location_pathname
          \<and> history_length (BuilderOnlyGuard_landing True location_pathname lastValidFlowRoute
             (fst (BuilderOnlyGuard_popstateEffect True location_pathname b)) delta landed)
            = history_length h"
    using assms(1) by (simp add: BuilderOnlyGuard_attempt)
  from blocked_attempts_returning [OF this assms(2,3)] show ?thesis .
qed

lemma RouteBlocker_attempts:
  assumes "allowedPattern location_pathname" "current h = location_pathname"
    and "blocked_attempts allowedPattern
          (RouteBlocker_landing True allowedPattern location_pathname
             (fst (RouteBlocker_popstateEffect True allowedPattern location_pathname b))) deltas h = Some h'"
  shows "current h' = location_pathname \<and> history_length h' = history_length h"
proof -
  have "\<And>delta h landed. current h = location_pathname \<Longrightarrow> traverse delta h = Some landed \<Longrightarrow>
          \<not> allowedPattern (current landed) \<Longrightarrow>
          current (RouteBlocker_landing True allowedPattern location_pathname
             (fst (RouteBlocker_popstateEffect True allowedPattern location_pathname b)) delta landed)
            = location_pathname
          \<and> history_length (RouteBlocker_landing True allowedPattern location_pathname
             (fst (RouteBlocker_popstateEffect True allowedPattern location_pathname b)) delta landed)
            = history_length h"
    using assms(1) by (simp add: RouteBlocker_attempt)
  from blocked_attempts_returning [OF this assms(2,3)] show ?thesis .
qed

lemma usePreventNavigation_attempts:
  assumes "allowedPattern location_pathname" "current h = location_pathname"
    and "blocked_attempts allowedPattern
          (usePreventNavigation_landing True allowedPattern location_pathname
             (usePreventNavigation_effect True allowedPattern location_pathname b)) deltas h = Some h'"
    and "\<forall>delta \<in> set deltas. delta < 0"
  shows "current h' = location_pathname \<and> history_length h' \<le> history_length h"
proof -
  have "\<And>delta h landed. traverse delta h = Some landed \<Longrightarrow> delta < 0 \<Longrightarrow>
          \<not> allowedPattern (current landed) \<Longrightarrow>
          current (usePreventNavigation_landing True allowedPattern location_pathname
             (usePreventNavigation_effect True allowedPattern location_pathname b) delta landed)
            = location_pathname
          \<and> history_length (usePreventNavigation_landing True allowedPattern location_pathname
             (usePreventNavigation_effect True allowedPattern location_pathname b) delta landed)
            \<le> history_length h"
    using assms(1) by (simp add: usePreventNavigation_attempt)
  from blocked_attempts_pushing [OF this assms(2,3,4)] show ?thesis .
qed

section \<open>Transition veto: the decision\<close>

text \<open>
  C1. A proposed in-app transition from location \<open>A\<close> to location \<open>B\<close> is vetoed if and
  only if the guard is enabled, \<open>A\<close> matches the confinement pattern and \<open>B\<close> does not;
  with the guard disabled no transition is vetoed. This holds for the callback of
  \<^verbatim>\<open>RouteBlocker\<close>, for any pattern, and for the callback of \<^verbatim>\<open>BuilderOnlyGuard\<close>.
\<close>

theorem veto_iff_enabled_and_leaving:
  "RouteBlocker_shouldBlock enabled allowedPattern A B
     = (enabled \<and> allowedPattern A \<and> \<not> allowedPattern B)
   \<and> BuilderOnlyGuard_shouldBlock enabled A B
     = (enabled \<and> test ALLOWED_FLOW_PATTERN A \<and> \<not> test ALLOWED_FLOW_PATTERN B)
   \<and> RouteBlocker_shouldBlock False allowedPattern A B = False
   \<and> BuilderOnlyGuard_shouldBlock False A B = False"
  by (simp add: RouteBlocker_shouldBlock_def BuilderOnlyGuard_shouldBlock_def)

theorem veto_iff_enabled_and_leaving_witness:
  "RouteBlocker_shouldBlock True (test ALLOWED_FLOW_PATTERN) ''/flow/abc'' ''/settings''
   \<and> \<not> RouteBlocker_shouldBlock True (test ALLOWED_FLOW_PATTERN) ''/flow/abc'' ''/flow/def''
   \<and> BuilderOnlyGuard_shouldBlock True ''/flow/abc'' ''/settings''
   \<and> \<not> BuilderOnlyGuard_shouldBlock True ''/settings'' ''/''"
  using veto_iff_enabled_and_leaving
          [of True "test ALLOWED_FLOW_PATTERN" "''/flow/abc''" "''/settings''"]
        veto_iff_enabled_and_leaving
          [of True "test ALLOWED_FLOW_PATTERN" "''/flow/abc''" "''/flow/def''"]
        veto_iff_enabled_and_leaving
          [of True "test ALLOWED_FLOW_PATTERN" "''/settings''" "''/''"]
  by (simp add: test_def ALLOWED_FLOW_PATTERN_def)

section \<open>Pattern matcher: what is inside the subtree\<close>

text \<open>
  C4. The claim is that the configured pattern excludes the deeper variants under an
  identifier, so that a path like \<^verbatim>\<open>/flow/<id>/view\<close> does not match. The pattern has no
  anchor at its end: evaluated on \<^verbatim>\<open>/flow/abc/view\<close>, \<^verbatim>\<open>test\<close> returns true.
\<close>

theorem ALLOWED_FLOW_PATTERN_accepts_view_route:
  "test ALLOWED_FLOW_PATTERN ''/flow/abc/view'' = True"
  by (simp add: test_def ALLOWED_FLOW_PATTERN_def)

text \<open>
  C6. No partial match of the confined subtree is accepted: a path matches exactly when
  it is \<^verbatim>\<open>/flow/\<close> followed by at least one character other than \<^verbatim>\<open>/\<close>, whatever comes
  after. So the scope path with a non-empty identifier matches, and so do the paths
  deeper under it; the scope root without an identifier and the sibling \<^verbatim>\<open>/flows\<close> do
  not.
\<close>

theorem pattern_is_prefix_rule:
  "(test ALLOWED_FLOW_PATTERN p \<longleftrightarrow>
      (\<exists>c rest. p = ''/flow/'' @ c # rest \<and> c \<noteq> CHR ''/''))
   \<and> test ALLOWED_FLOW_PATTERN ''/flow/abc''
   \<and> test ALLOWED_FLOW_PATTERN ''/flow/abc/view''
   \<and> \<not> test ALLOWED_FLOW_PATTERN ''/flow/''
   \<and> \<not> test ALLOWED_FLOW_PATTERN ''/flow''
   \<and> \<not> test ALLOWED_FLOW_PATTERN ''/flows''"
  by (simp add: test_ALLOWED_FLOW_PATTERN)

theorem pattern_is_prefix_rule_witness:
  "test ALLOWED_FLOW_PATTERN ''/flow/123-456''
   \<and> (\<exists>c rest. ''/flow/123-456'' = ''/flow/'' @ c # rest \<and> c \<noteq> CHR ''/'')
   \<and> \<not> test ALLOWED_FLOW_PATTERN ''/flow//abc''"
  using pattern_is_prefix_rule [of "''/flow/123-456''"]
        pattern_is_prefix_rule [of "''/flow//abc''"]
  by simp

section \<open>Development diagnostics\<close>

text \<open>
  C8. The log of a blocked transition is written only in a development build, and the
  build mode has no part in the decision: two runs of the same proposed transition
  under different build modes return the same decision.
\<close>

theorem log_only_in_development_and_decision_unaffected:
  "fst (RouteBlocker_transition env1 enabled allowedPattern A B)
     = fst (RouteBlocker_transition env2 enabled allowedPattern A B)
   \<and> (snd (RouteBlocker_transition env enabled allowedPattern A B) \<noteq> []
        \<longrightarrow> env = ''development'')
   \<and> (RouteBlocker_logEffect env b location_pathname \<noteq> [] \<longrightarrow> env = ''development'')"
  by (simp add: RouteBlocker_transition_def RouteBlocker_logEffect_def Let_def)

theorem log_only_in_development_and_decision_unaffected_witness:
  "fst (RouteBlocker_transition ''production'' True (test ALLOWED_FLOW_PATTERN)
          ''/flow/abc'' ''/settings'')
     = fst (RouteBlocker_transition ''development'' True (test ALLOWED_FLOW_PATTERN)
          ''/flow/abc'' ''/settings'')
   \<and> snd (RouteBlocker_transition ''development'' True (test ALLOWED_FLOW_PATTERN)
          ''/flow/abc'' ''/settings'') \<noteq> []
   \<and> snd (RouteBlocker_transition ''production'' True (test ALLOWED_FLOW_PATTERN)
          ''/flow/abc'' ''/settings'') = []"
  using log_only_in_development_and_decision_unaffected
          [of "''production''" True "test ALLOWED_FLOW_PATTERN" "''/flow/abc''" "''/settings''"
              "''development''" "''production''"]
  by (simp add: RouteBlocker_transition_def RouteBlocker_logEffect_def
        RouteBlocker_shouldBlock_def test_def ALLOWED_FLOW_PATTERN_def)

section \<open>Last valid location tracker\<close>

text \<open>
  C5. Whatever sequence of locations the guard observes, the tracked last valid location
  changes only at an observation that matches the pattern, equals the most recently
  observed matching location (none when no observed location matched), and once it
  holds a location it never goes back to holding none.
\<close>

theorem tracker_holds_most_recent_valid_location:
  "(BuilderOnlyGuard_trackEffect p r \<noteq> r \<longrightarrow> test ALLOWED_FLOW_PATTERN p)
   \<and> (test ALLOWED_FLOW_PATTERN p \<longrightarrow> BuilderOnlyGuard_trackEffect p r = Some p)
   \<and> BuilderOnlyGuard_observe pathnames None =
       (if filter (test ALLOWED_FLOW_PATTERN) pathnames = [] then None
        else Some (last (filter (test ALLOWED_FLOW_PATTERN) pathnames)))
   \<and> (r \<noteq> None \<longrightarrow> BuilderOnlyGuard_trackEffect p r \<noteq> None)
   \<and> (r \<noteq> None \<longrightarrow> BuilderOnlyGuard_observe pathnames r \<noteq> None)"
  by (auto simp: observe_last_valid BuilderOnlyGuard_trackEffect_def)

theorem tracker_holds_most_recent_valid_location_witness:
  "BuilderOnlyGuard_trackEffect ''/flow/abc'' None = Some ''/flow/abc''
   \<and> BuilderOnlyGuard_trackEffect ''/settings'' (Some ''/flow/abc'') = Some ''/flow/abc''
   \<and> BuilderOnlyGuard_observe [''/'', ''/flow/abc'', ''/settings'', ''/flow/def'', ''/flows''] None
       = Some ''/flow/def''
   \<and> BuilderOnlyGuard_observe [''/'', ''/settings''] None = None
   \<and> BuilderOnlyGuard_observe [''/'', ''/settings''] (Some ''/flow/abc'') \<noteq> None"
  using tracker_holds_most_recent_valid_location
          [of "''/flow/abc''" None "[''/'', ''/flow/abc'', ''/settings'', ''/flow/def'', ''/flows'']"]
        tracker_holds_most_recent_valid_location
          [of "''/settings''" "Some ''/flow/abc''" "[''/'', ''/settings'']"]
  by (simp add: test_ALLOWED_FLOW_PATTERN BuilderOnlyGuard_trackEffect_def)

section \<open>History sentinel: accepted changes\<close>

text \<open>
  C7. On an out-of-band change of location, a guard that is disabled, or that finds the
  new location inside the pattern, issues no navigation: the history stack and the
  visible location stay as the change left them.
\<close>

theorem accepted_change_is_left_alone:
  "(\<not> enabled \<or> allowedPattern (current h) \<longrightarrow>
      RouteBlocker_outOfBand allowedPattern
        (fst (RouteBlocker_popstateEffect enabled allowedPattern location_pathname b)) h = []
      \<and> fold perform
          (RouteBlocker_outOfBand allowedPattern
            (fst (RouteBlocker_popstateEffect enabled allowedPattern location_pathname b)) h) h = h)
   \<and> (\<not> enabled \<or> test ALLOWED_FLOW_PATTERN (current h) \<longrightarrow>
      BuilderOnlyGuard_outOfBand enabled location_pathname lastValidFlowRoute
        (fst (BuilderOnlyGuard_popstateEffect enabled location_pathname b)) h = []
      \<and> fold perform
          (BuilderOnlyGuard_outOfBand enabled location_pathname lastValidFlowRoute
            (fst (BuilderOnlyGuard_popstateEffect enabled location_pathname b)) h) h = h)"
proof -
  have R: "\<not> enabled \<or> allowedPattern (current h) \<Longrightarrow>
      RouteBlocker_outOfBand allowedPattern
        (fst (RouteBlocker_popstateEffect enabled allowedPattern location_pathname b)) h = []"
    by (auto simp: RouteBlocker_outOfBand_def RouteBlocker_popstateEffect_def
          RouteBlocker_handlePopState_def Let_def)
  have B: "\<not> enabled \<or> test ALLOWED_FLOW_PATTERN (current h) \<Longrightarrow>
      BuilderOnlyGuard_outOfBand enabled location_pathname lastValidFlowRoute
        (fst (BuilderOnlyGuard_popstateEffect enabled location_pathname b)) h = []"
    using settle_accepted [of enabled h location_pathname lastValidFlowRoute]
    by (auto simp: BuilderOnlyGuard_outOfBand_def BuilderOnlyGuard_popstateEffect_def
          BuilderOnlyGuard_handlePopState_def BuilderOnlyGuard_shouldBlock_def Let_def)
  show ?thesis using R B by simp
qed

theorem accepted_change_is_left_alone_witness:
  "test ALLOWED_FLOW_PATTERN (current \<lparr>behind = [], current = ''/flow/def'', ahead = [''/flow/abc'']\<rparr>)
   \<and> RouteBlocker_outOfBand (test ALLOWED_FLOW_PATTERN)
        (fst (RouteBlocker_popstateEffect True (test ALLOWED_FLOW_PATTERN) ''/flow/abc''
               \<lparr>hist = \<lparr>behind = [''/flow/def''], current = ''/flow/abc'', ahead = []\<rparr>,
                 popstate_listeners = [], closures = 0\<rparr>))
        \<lparr>behind = [], current = ''/flow/def'', ahead = [''/flow/abc'']\<rparr> = []
   \<and> BuilderOnlyGuard_outOfBand True ''/flow/abc'' (Some ''/flow/abc'')
        (fst (BuilderOnlyGuard_popstateEffect True ''/flow/abc''
               \<lparr>hist = \<lparr>behind = [''/flow/def''], current = ''/flow/abc'', ahead = []\<rparr>,
                 popstate_listeners = [], closures = 0\<rparr>))
        \<lparr>behind = [], current = ''/flow/def'', ahead = [''/flow/abc'']\<rparr> = []
   \<and> BuilderOnlyGuard_outOfBand False ''/flow/abc'' (Some ''/flow/abc'')
        (fst (BuilderOnlyGuard_popstateEffect False ''/flow/abc''
               \<lparr>hist = \<lparr>behind = [''/settings''], current = ''/flow/abc'', ahead = []\<rparr>,
                 popstate_listeners = [], closures = 0\<rparr>))
        \<lparr>behind = [], current = ''/settings'', ahead = [''/flow/abc'']\<rparr> = []"
  using accepted_change_is_left_alone
          [of True "test ALLOWED_FLOW_PATTERN"
              "\<lparr>behind = [], current = ''/flow/def'', ahead = [''/flow/abc'']\<rparr>" "''/flow/abc''"
              "\<lparr>hist = \<lparr>behind = [''/flow/def''], current = ''/flow/abc'', ahead = []\<rparr>,
                 popstate_listeners = [], closures = 0\<rparr>" "Some ''/flow/abc''"]
        accepted_change_is_left_alone
          [of False "test ALLOWED_FLOW_PATTERN"
              "\<lparr>behind = [], current = ''/settings'', ahead = [''/flow/abc'']\<rparr>" "''/flow/abc''"
              "\<lparr>hist = \<lparr>behind = [''/settings''], current = ''/flow/abc'', ahead = []\<rparr>,
                 popstate_listeners = [], closures = 0\<rparr>" "Some ''/flow/abc''"]
  by (simp add: test_ALLOWED_FLOW_PATTERN)

text \<open>
  C10. The claim is that in \<^verbatim>\<open>RouteBlocker\<close> and \<^verbatim>\<open>usePreventNavigation\<close>, with the
  current location outside the pattern, no handler is registered and an out-of-band
  navigation to any location, valid or not, is accepted unchanged. The hook does not
  leave a landing on a valid location unchanged: its effect runs again at the new
  pathname and pushes it onto the history.

  As amended: in both, the \<^verbatim>\<open>popstate\<close> handler is registered only when the guard is
  enabled and the current location matches the pattern; when it does not match, the
  effect returns before it touches the browser, and an out-of-band navigation to any
  location is neither corrected nor stepped back, so the visible location is the one
  landed on. \<^verbatim>\<open>RouteBlocker\<close> leaves the history as the navigation made it. So does the
  hook when it is disabled or the landing is outside the pattern; on a landing inside
  the pattern its effect, run again at the new pathname, registers the handler and
  pushes that pathname, which duplicates the current entry and drops the entries ahead.
\<close>

theorem no_handler_on_invalid_location:
  "(fst (RouteBlocker_popstateEffect enabled allowedPattern location_pathname b) \<noteq> None
      \<longrightarrow> enabled \<and> allowedPattern location_pathname)
   \<and> (fst (usePreventNavigation_effect enabled allowedPattern location_pathname b) \<noteq> None
      \<longrightarrow> enabled \<and> allowedPattern location_pathname)
   \<and> (\<not> allowedPattern location_pathname \<longrightarrow>
     RouteBlocker_popstateEffect enabled allowedPattern location_pathname b = (None, b)
   \<and> usePreventNavigation_effect enabled allowedPattern location_pathname b = (None, b)
   \<and> RouteBlocker_outOfBand allowedPattern
        (fst (RouteBlocker_popstateEffect enabled allowedPattern location_pathname b)) landed = []
   \<and> RouteBlocker_landing enabled allowedPattern location_pathname
        (fst (RouteBlocker_popstateEffect enabled allowedPattern location_pathname b)) delta landed
       = landed
   \<and> current (usePreventNavigation_landing enabled allowedPattern location_pathname
        (usePreventNavigation_effect enabled allowedPattern location_pathname b) delta landed)
       = current landed
   \<and> (\<not> (enabled \<and> allowedPattern (current landed)) \<longrightarrow>
        usePreventNavigation_popstate enabled allowedPattern location_pathname
          (fst (usePreventNavigation_effect enabled allowedPattern location_pathname b),
           (snd (usePreventNavigation_effect enabled allowedPattern location_pathname b))
             \<lparr>hist := landed\<rparr>)
         = (None, b\<lparr>hist := landed\<rparr>))
   \<and> (enabled \<and> allowedPattern (current landed) \<longrightarrow>
        usePreventNavigation_landing enabled allowedPattern location_pathname
          (usePreventNavigation_effect enabled allowedPattern location_pathname b) delta landed
         = pushState (current landed) landed))"
  by (auto simp: RouteBlocker_popstateEffect_def usePreventNavigation_effect_def
        RouteBlocker_outOfBand_def RouteBlocker_landing_def RouteBlocker_shouldBlock_def
        usePreventNavigation_landing_def usePreventNavigation_popstate_def cleanup_def
        addEventListener_def pushState_def Let_def)

theorem no_handler_on_invalid_location_witness:
  "\<not> test ALLOWED_FLOW_PATTERN ''/settings''
   \<and> RouteBlocker_popstateEffect True (test ALLOWED_FLOW_PATTERN) ''/settings''
        \<lparr>hist = \<lparr>behind = [], current = ''/settings'', ahead = [''/flow/abc'', ''/flows'']\<rparr>,
          popstate_listeners = [], closures = 0\<rparr>
      = (None, \<lparr>hist = \<lparr>behind = [], current = ''/settings'', ahead = [''/flow/abc'', ''/flows'']\<rparr>,
          popstate_listeners = [], closures = 0\<rparr>)
   \<and> usePreventNavigation_effect True (test ALLOWED_FLOW_PATTERN) ''/settings''
        \<lparr>hist = \<lparr>behind = [], current = ''/settings'', ahead = [''/flow/abc'', ''/flows'']\<rparr>,
          popstate_listeners = [], closures = 0\<rparr>
      = (None, \<lparr>hist = \<lparr>behind = [], current = ''/settings'', ahead = [''/flow/abc'', ''/flows'']\<rparr>,
          popstate_listeners = [], closures = 0\<rparr>)
   \<and> RouteBlocker_landing True (test ALLOWED_FLOW_PATTERN) ''/settings''
        (fst (RouteBlocker_popstateEffect True (test ALLOWED_FLOW_PATTERN) ''/settings''
          \<lparr>hist = \<lparr>behind = [], current = ''/settings'', ahead = [''/flow/abc'', ''/flows'']\<rparr>,
            popstate_listeners = [], closures = 0\<rparr>))
        2 \<lparr>behind = [''/flow/abc'', ''/settings''], current = ''/flows'', ahead = []\<rparr>
      = \<lparr>behind = [''/flow/abc'', ''/settings''], current = ''/flows'', ahead = []\<rparr>
   \<and> usePreventNavigation_landing True (test ALLOWED_FLOW_PATTERN) ''/settings''
        (usePreventNavigation_effect True (test ALLOWED_FLOW_PATTERN) ''/settings''
          \<lparr>hist = \<lparr>behind = [], current = ''/settings'', ahead = [''/flow/abc'', ''/flows'']\<rparr>,
            popstate_listeners = [], closures = 0\<rparr>)
        2 \<lparr>behind = [''/flow/abc'', ''/settings''], current = ''/flows'', ahead = []\<rparr>
      = \<lparr>behind = [''/flow/abc'', ''/settings''], current = ''/flows'', ahead = []\<rparr>"
  using no_handler_on_invalid_location
          [of True "test ALLOWED_FLOW_PATTERN" "''/settings''"
              "\<lparr>hist = \<lparr>behind = [], current = ''/settings'', ahead = [''/flow/abc'', ''/flows'']\<rparr>,
                popstate_listeners = [], closures = 0\<rparr>"
              "\<lparr>behind = [''/flow/abc'', ''/settings''], current = ''/flows'', ahead = []\<rparr>"
              2]
  by (simp add: test_ALLOWED_FLOW_PATTERN usePreventNavigation_landing_def
        usePreventNavigation_popstate_def usePreventNavigation_effect_def
        RouteBlocker_landing_def RouteBlocker_outOfBand_def RouteBlocker_shouldBlock_def
        RouteBlocker_popstateEffect_def cleanup_def)

theorem usePreventNavigation_pushes_on_valid_landing_counterexample:
  "\<not> test ALLOWED_FLOW_PATTERN ''/settings''
   \<and> usePreventNavigation_effect True (test ALLOWED_FLOW_PATTERN) ''/settings''
        \<lparr>hist = \<lparr>behind = [], current = ''/settings'', ahead = [''/flow/abc'', ''/flows'']\<rparr>,
          popstate_listeners = [], closures = 0\<rparr>
      = (None, \<lparr>hist = \<lparr>behind = [], current = ''/settings'', ahead = [''/flow/abc'', ''/flows'']\<rparr>,
          popstate_listeners = [], closures = 0\<rparr>)
   \<and> traverse 1 \<lparr>behind = [], current = ''/settings'', ahead = [''/flow/abc'', ''/flows'']\<rparr>
      = Some \<lparr>behind = [''/settings''], current = ''/flow/abc'', ahead = [''/flows'']\<rparr>
   \<and> usePreventNavigation_landing True (test ALLOWED_FLOW_PATTERN) ''/settings''
        (usePreventNavigation_effect True (test ALLOWED_FLOW_PATTERN) ''/settings''
          \<lparr>hist = \<lparr>behind = [], current = ''/settings'', ahead = [''/flow/abc'', ''/flows'']\<rparr>,
            popstate_listeners = [], closures = 0\<rparr>)
        1 \<lparr>behind = [''/settings''], current = ''/flow/abc'', ahead = [''/flows'']\<rparr>
      = \<lparr>behind = [''/flow/abc'', ''/settings''], current = ''/flow/abc'', ahead = []\<rparr>
   \<and> \<lparr>behind = [''/flow/abc'', ''/settings''], current = ''/flow/abc'', ahead = []\<rparr>
      \<noteq> \<lparr>behind = [''/settings''], current = ''/flow/abc'', ahead = [''/flows'']\<rparr>"
  by (simp add: test_ALLOWED_FLOW_PATTERN traverse_def usePreventNavigation_effect_def
        usePreventNavigation_landing_def usePreventNavigation_popstate_def cleanup_def
        addEventListener_def pushState_def Let_def)

section \<open>History sentinel: corrections\<close>

text \<open>
  C2. The claim is that, with the guard enabled, every out-of-band navigation that lands
  outside the pattern is answered by a replace to the last valid location observed, or
  with none observed by a step back of exactly one entry, and that the visible location
  is then that target. Two landings are not answered so. The correction effect runs
  again at the entry its own step back lands on, so the guard goes on stepping back
  while it lands on new pathnames outside the pattern; and its effects depend on the
  pathname, so a landing on the pathname of the last render is answered by nothing.

  As amended: the guard has rendered at \<open>pathnames\<close> and shows the last of them; an
  out-of-band navigation lands on a location outside the pattern whose pathname is
  not that one. If a valid location was observed, the guard issues one navigation, a
  replace to the last valid location observed, and the visible location is then that
  location. Otherwise every navigation it issues is a step back of one entry and it
  issues at least one; when the entry one step back matches the pattern, or has the
  pathname landed on, that step is the only one; and when that entry is one of these or
  is the first of the history, the visible location is then that entry.
\<close>

theorem correction_after_invalid_landing:
  "pathnames \<noteq> [] \<and> current h = last pathnames \<and> traverse delta h = Some landed \<and>
   \<not> test ALLOWED_FLOW_PATTERN (current landed) \<and> current landed \<noteq> last pathnames \<longrightarrow>
     (case BuilderOnlyGuard_observe pathnames None of
        Some route \<Rightarrow>
          BuilderOnlyGuard_outOfBand True (last pathnames) (Some route)
            (fst (BuilderOnlyGuard_popstateEffect True (last pathnames) b)) landed
            = [NavigateReplace route]
          \<and> current (BuilderOnlyGuard_landing True (last pathnames) (Some route)
               (fst (BuilderOnlyGuard_popstateEffect True (last pathnames) b)) delta landed)
            = route
      | None \<Rightarrow>
          set (BuilderOnlyGuard_outOfBand True (last pathnames) None
            (fst (BuilderOnlyGuard_popstateEffect True (last pathnames) b)) landed)
            = {NavigateDelta (- 1)}
          \<and> (\<forall>p ps. behind landed = p # ps \<and> (test ALLOWED_FLOW_PATTERN p \<or> p = current landed) \<longrightarrow>
               BuilderOnlyGuard_outOfBand True (last pathnames) None
                 (fst (BuilderOnlyGuard_popstateEffect True (last pathnames) b)) landed
                 = [NavigateDelta (- 1)])
          \<and> (\<forall>p ps. behind landed = p # ps \<and>
                  (test ALLOWED_FLOW_PATTERN p \<or> p = current landed \<or> ps = []) \<longrightarrow>
               current (BuilderOnlyGuard_landing True (last pathnames) None
                    (fst (BuilderOnlyGuard_popstateEffect True (last pathnames) b)) delta landed)
                 = p))"
proof (intro impI, elim conjE)
  assume ne: "pathnames \<noteq> []" and shown: "current h = last pathnames"
    and t: "traverse delta h = Some landed"
    and inv: "\<not> test ALLOWED_FLOW_PATTERN (current landed)"
    and diff: "current landed \<noteq> last pathnames"
  let ?loc = "last pathnames"
  let ?handler = "fst (BuilderOnlyGuard_popstateEffect True ?loc b)"
  show "case BuilderOnlyGuard_observe pathnames None of
        Some route \<Rightarrow>
          BuilderOnlyGuard_outOfBand True ?loc (Some route) ?handler landed = [NavigateReplace route]
          \<and> current (BuilderOnlyGuard_landing True ?loc (Some route) ?handler delta landed) = route
      | None \<Rightarrow>
          set (BuilderOnlyGuard_outOfBand True ?loc None ?handler landed) = {NavigateDelta (- 1)}
          \<and> (\<forall>p ps. behind landed = p # ps \<and> (test ALLOWED_FLOW_PATTERN p \<or> p = current landed) \<longrightarrow>
               BuilderOnlyGuard_outOfBand True ?loc None ?handler landed = [NavigateDelta (- 1)])
          \<and> (\<forall>p ps. behind landed = p # ps \<and>
                  (test ALLOWED_FLOW_PATTERN p \<or> p = current landed \<or> ps = []) \<longrightarrow>
               current (BuilderOnlyGuard_landing True ?loc None ?handler delta landed) = p)"
  proof (cases "test ALLOWED_FLOW_PATTERN ?loc")
    case True
    then have ref: "BuilderOnlyGuard_observe pathnames None = Some ?loc"
      using ne by (simp add: observe_at_valid)
    have "delta \<noteq> 0"
    proof
      assume "delta = 0"
      with t have "landed = h" by (simp add: traverse_def)
      with shown diff show False by simp
    qed
    with t have "current (go (- delta) (replaceState ?loc landed)) = current h"
      by (rule traverse_and_return)
    with shown show ?thesis
      by (simp add: ref BuilderOnlyGuard_vetoed [OF True inv])
  next
    case False
    note nv = BuilderOnlyGuard_not_vetoed [OF False]
    show ?thesis
    proof (cases "BuilderOnlyGuard_observe pathnames None")
      case None
      have sub: "set (snd (snd (BuilderOnlyGuard_settle True ?loc None landed))) \<subseteq> {NavigateDelta (- 1)}"
        by (rule settle_steps_back)
      have mem: "NavigateDelta (- 1) \<in> set (snd (snd (BuilderOnlyGuard_settle True ?loc None landed)))"
        using inv diff by (rule settle_first_step)
      have one: "\<forall>p ps. behind landed = p # ps \<and> (test ALLOWED_FLOW_PATTERN p \<or> p = current landed) \<longrightarrow>
          snd (BuilderOnlyGuard_settle True ?loc None landed)
            = (\<lparr>behind = ps, current = p, ahead = current landed # ahead landed\<rparr>, [NavigateDelta (- 1)])"
        using settle_one_step [OF inv diff] by blast
      have first: "\<forall>p. behind landed = [p] \<longrightarrow>
          fst (snd (BuilderOnlyGuard_settle True ?loc None landed))
            = \<lparr>behind = [], current = p, ahead = current landed # ahead landed\<rparr>"
        using settle_first_entry [OF inv diff] by blast
      from sub mem have "set (snd (snd (BuilderOnlyGuard_settle True ?loc None landed))) = {NavigateDelta (- 1)}"
        by blast
      with one first show ?thesis by (auto simp: None nv)
    next
      case (Some route)
      then have "test ALLOWED_FLOW_PATTERN route" by (rule observe_valid)
      with inv diff have "BuilderOnlyGuard_settle True ?loc (Some route) landed
           = (Some route, replaceState route landed, [NavigateReplace route])"
        by (rule settle_replace)
      then show ?thesis by (simp add: Some nv replaceState_def)
    qed
  qed
qed

theorem correction_after_invalid_landing_witness:
  "BuilderOnlyGuard_observe [''/flow/abc'', ''/flow/def''] None = Some ''/flow/def''
   \<and> traverse (- 2) \<lparr>behind = [''/flow/abc'', ''/''], current = ''/flow/def'', ahead = []\<rparr>
       = Some \<lparr>behind = [], current = ''/'', ahead = [''/flow/abc'', ''/flow/def'']\<rparr>
   \<and> BuilderOnlyGuard_outOfBand True ''/flow/def'' (Some ''/flow/def'')
        (fst (BuilderOnlyGuard_popstateEffect True ''/flow/def''
          \<lparr>hist = \<lparr>behind = [''/flow/abc'', ''/''], current = ''/flow/def'', ahead = []\<rparr>,
            popstate_listeners = [], closures = 0\<rparr>))
        \<lparr>behind = [], current = ''/'', ahead = [''/flow/abc'', ''/flow/def'']\<rparr>
       = [NavigateReplace ''/flow/def'']
   \<and> current (BuilderOnlyGuard_landing True ''/flow/def'' (Some ''/flow/def'')
        (fst (BuilderOnlyGuard_popstateEffect True ''/flow/def''
          \<lparr>hist = \<lparr>behind = [''/flow/abc'', ''/''], current = ''/flow/def'', ahead = []\<rparr>,
            popstate_listeners = [], closures = 0\<rparr>))
        (- 2) \<lparr>behind = [], current = ''/'', ahead = [''/flow/abc'', ''/flow/def'']\<rparr>)
       = ''/flow/def''
   \<and> BuilderOnlyGuard_observe [''/flow/abc''] None = Some ''/flow/abc''
   \<and> BuilderOnlyGuard_outOfBand True ''/flow/abc'' (Some ''/flow/abc'')
        (fst (BuilderOnlyGuard_popstateEffect True ''/flow/abc''
          \<lparr>hist = \<lparr>behind = [''/''], current = ''/flow/abc'', ahead = []\<rparr>,
            popstate_listeners = [], closures = 0\<rparr>))
        \<lparr>behind = [], current = ''/'', ahead = [''/flow/abc'']\<rparr>
       = [NavigateReplace ''/flow/abc'']
   \<and> BuilderOnlyGuard_observe [''/''] None = None
   \<and> traverse 1 \<lparr>behind = [], current = ''/'', ahead = [''/flow/abc'', ''/settings'']\<rparr>
       = Some \<lparr>behind = [''/''], current = ''/flow/abc'', ahead = [''/settings'']\<rparr>
   \<and> traverse 2 \<lparr>behind = [], current = ''/'', ahead = [''/flow/abc'', ''/settings'']\<rparr>
       = Some \<lparr>behind = [''/flow/abc'', ''/''], current = ''/settings'', ahead = []\<rparr>
   \<and> BuilderOnlyGuard_outOfBand True ''/'' None
        (fst (BuilderOnlyGuard_popstateEffect True ''/''
          \<lparr>hist = \<lparr>behind = [], current = ''/'', ahead = [''/flow/abc'', ''/settings'']\<rparr>,
            popstate_listeners = [], closures = 0\<rparr>))
        \<lparr>behind = [''/flow/abc'', ''/''], current = ''/settings'', ahead = []\<rparr>
       = [NavigateDelta (- 1)]
   \<and> current (BuilderOnlyGuard_landing True ''/'' None
        (fst (BuilderOnlyGuard_popstateEffect True ''/''
          \<lparr>hist = \<lparr>behind = [], current = ''/'', ahead = [''/flow/abc'', ''/settings'']\<rparr>,
            popstate_listeners = [], closures = 0\<rparr>))
        2 \<lparr>behind = [''/flow/abc'', ''/''], current = ''/settings'', ahead = []\<rparr>)
       = ''/flow/abc''
   \<and> BuilderOnlyGuard_observe [''/settings''] None = None
   \<and> traverse 1 \<lparr>behind = [], current = ''/settings'', ahead = [''/login'']\<rparr>
       = Some \<lparr>behind = [''/settings''], current = ''/login'', ahead = []\<rparr>
   \<and> set (BuilderOnlyGuard_outOfBand True ''/settings'' None
        (fst (BuilderOnlyGuard_popstateEffect True ''/settings''
          \<lparr>hist = \<lparr>behind = [], current = ''/settings'', ahead = [''/login'']\<rparr>,
            popstate_listeners = [], closures = 0\<rparr>))
        \<lparr>behind = [''/settings''], current = ''/login'', ahead = []\<rparr>)
       = {NavigateDelta (- 1)}
   \<and> current (BuilderOnlyGuard_landing True ''/settings'' None
        (fst (BuilderOnlyGuard_popstateEffect True ''/settings''
          \<lparr>hist = \<lparr>behind = [], current = ''/settings'', ahead = [''/login'']\<rparr>,
            popstate_listeners = [], closures = 0\<rparr>))
        1 \<lparr>behind = [''/settings''], current = ''/login'', ahead = []\<rparr>)
       = ''/settings''"
  using correction_after_invalid_landing
          [of "[''/flow/abc'', ''/flow/def'']"
              "\<lparr>behind = [''/flow/abc'', ''/''], current = ''/flow/def'', ahead = []\<rparr>"
              "- 2"
              "\<lparr>behind = [], current = ''/'', ahead = [''/flow/abc'', ''/flow/def'']\<rparr>"
              "\<lparr>hist = \<lparr>behind = [''/flow/abc'', ''/''], current = ''/flow/def'', ahead = []\<rparr>,
                popstate_listeners = [], closures = 0\<rparr>"]
        correction_after_invalid_landing
          [of "[''/'']"
              "\<lparr>behind = [], current = ''/'', ahead = [''/flow/abc'', ''/settings'']\<rparr>"
              "2"
              "\<lparr>behind = [''/flow/abc'', ''/''], current = ''/settings'', ahead = []\<rparr>"
              "\<lparr>hist = \<lparr>behind = [], current = ''/'', ahead = [''/flow/abc'', ''/settings'']\<rparr>,
                popstate_listeners = [], closures = 0\<rparr>"]
        correction_after_invalid_landing
          [of "[''/settings'']"
              "\<lparr>behind = [], current = ''/settings'', ahead = [''/login'']\<rparr>"
              "1"
              "\<lparr>behind = [''/settings''], current = ''/login'', ahead = []\<rparr>"
              "\<lparr>hist = \<lparr>behind = [], current = ''/settings'', ahead = [''/login'']\<rparr>,
                popstate_listeners = [], closures = 0\<rparr>"]
  by (simp add: test_ALLOWED_FLOW_PATTERN BuilderOnlyGuard_observe_def BuilderOnlyGuard_trackEffect_def
        traverse_def numeral_2_eq_2 BuilderOnlyGuard_vetoed)

theorem correction_cascades_counterexample:
  "BuilderOnlyGuard_observe [''/''] None = None
   \<and> traverse 2 \<lparr>behind = [], current = ''/'', ahead = [''/settings'', ''/login'']\<rparr>
       = Some \<lparr>behind = [''/settings'', ''/''], current = ''/login'', ahead = []\<rparr>
   \<and> BuilderOnlyGuard_outOfBand True ''/'' None
        (fst (BuilderOnlyGuard_popstateEffect True ''/''
          \<lparr>hist = \<lparr>behind = [], current = ''/'', ahead = [''/settings'', ''/login'']\<rparr>,
            popstate_listeners = [], closures = 0\<rparr>))
        \<lparr>behind = [''/settings'', ''/''], current = ''/login'', ahead = []\<rparr>
       = [NavigateDelta (- 1), NavigateDelta (- 1), NavigateDelta (- 1)]
   \<and> current (BuilderOnlyGuard_landing True ''/'' None
        (fst (BuilderOnlyGuard_popstateEffect True ''/''
          \<lparr>hist = \<lparr>behind = [], current = ''/'', ahead = [''/settings'', ''/login'']\<rparr>,
            popstate_listeners = [], closures = 0\<rparr>))
        2 \<lparr>behind = [''/settings'', ''/''], current = ''/login'', ahead = []\<rparr>)
       = ''/''
   \<and> BuilderOnlyGuard_observe [''/settings''] None = None
   \<and> traverse (- 1) \<lparr>behind = [''/settings''], current = ''/settings'', ahead = []\<rparr>
       = Some \<lparr>behind = [], current = ''/settings'', ahead = [''/settings'']\<rparr>
   \<and> BuilderOnlyGuard_outOfBand True ''/settings'' None
        (fst (BuilderOnlyGuard_popstateEffect True ''/settings''
          \<lparr>hist = \<lparr>behind = [''/settings''], current = ''/settings'', ahead = []\<rparr>,
            popstate_listeners = [], closures = 0\<rparr>))
        \<lparr>behind = [], current = ''/settings'', ahead = [''/settings'']\<rparr>
       = []"
  by (simp add: test_ALLOWED_FLOW_PATTERN BuilderOnlyGuard_observe_def BuilderOnlyGuard_trackEffect_def
        traverse_def go_def numeral_2_eq_2 BuilderOnlyGuard_not_vetoed BuilderOnlyGuard_settle.simps
        BuilderOnlyGuard_correctionEffect_def)

text \<open>
  C3. The claim is that any number of consecutive blocked back or forward attempts
  yields one corrected location without growing the history, every corrective
  navigation being a replace and never a push. The handler of \<^verbatim>\<open>usePreventNavigation\<close>
  pushes before it replaces.

  As amended: from a confined state (the handler registered at a location inside the
  pattern, which is the location shown), any number of consecutive blocked attempts ends
  at that one location. In \<^verbatim>\<open>BuilderOnlyGuard\<close> and \<^verbatim>\<open>RouteBlocker\<close> each correction is a
  single replace and the length of the history is unchanged. In
  \<^verbatim>\<open>usePreventNavigation\<close> each correction is a push followed by a replace, and under
  blocked back attempts the history does not get longer.
\<close>

theorem blocked_attempts_end_at_one_location:
  "(test ALLOWED_FLOW_PATTERN location_pathname \<and> current h = location_pathname \<and>
    blocked_attempts (test ALLOWED_FLOW_PATTERN)
      (BuilderOnlyGuard_landing True location_pathname lastValidFlowRoute
         (fst (BuilderOnlyGuard_popstateEffect True location_pathname b))) deltas h = Some h'
    \<longrightarrow> current h' = location_pathname \<and> history_length h' = history_length h)
   \<and> (allowedPattern location_pathname \<and> current h = location_pathname \<and>
    blocked_attempts allowedPattern
      (RouteBlocker_landing True allowedPattern location_pathname
         (fst (RouteBlocker_popstateEffect True allowedPattern location_pathname b))) deltas h = Some h'
    \<longrightarrow> current h' = location_pathname \<and> history_length h' = history_length h)
   \<and> (test ALLOWED_FLOW_PATTERN location_pathname \<and> \<not> test ALLOWED_FLOW_PATTERN (current landed)
    \<longrightarrow> BuilderOnlyGuard_outOfBand True location_pathname lastValidFlowRoute
         (fst (BuilderOnlyGuard_popstateEffect True location_pathname b)) landed
          = [NavigateReplace location_pathname])
   \<and> (allowedPattern location_pathname \<and> \<not> allowedPattern (current landed)
    \<longrightarrow> RouteBlocker_outOfBand allowedPattern
         (fst (RouteBlocker_popstateEffect True allowedPattern location_pathname b)) landed
          = [NavigateReplace location_pathname])
   \<and> (allowedPattern location_pathname \<and> \<not> allowedPattern (current landed)
    \<longrightarrow> snd (usePreventNavigation_handlePopState allowedPattern location_pathname landed)
          = [PushState location_pathname, NavigateReplace location_pathname]
       \<and> usePreventNavigation_landing True allowedPattern location_pathname
           (usePreventNavigation_effect True allowedPattern location_pathname b) delta landed
          = replaceState location_pathname (pushState location_pathname landed))
   \<and> (allowedPattern location_pathname \<and> current h = location_pathname \<and>
      (\<forall>delta \<in> set deltas. delta < 0) \<and>
    blocked_attempts allowedPattern
      (usePreventNavigation_landing True allowedPattern location_pathname
         (usePreventNavigation_effect True allowedPattern location_pathname b)) deltas h = Some h'
    \<longrightarrow> current h' = location_pathname \<and> history_length h' \<le> history_length h)"
proof -
  have B: "test ALLOWED_FLOW_PATTERN location_pathname \<and> current h = location_pathname \<and>
    blocked_attempts (test ALLOWED_FLOW_PATTERN)
      (BuilderOnlyGuard_landing True location_pathname lastValidFlowRoute
         (fst (BuilderOnlyGuard_popstateEffect True location_pathname b))) deltas h = Some h'
    \<longrightarrow> current h' = location_pathname \<and> history_length h' = history_length h"
    using BuilderOnlyGuard_attempts by blast
  have R: "allowedPattern location_pathname \<and> current h = location_pathname \<and>
    blocked_attempts allowedPattern
      (RouteBlocker_landing True allowedPattern location_pathname
         (fst (RouteBlocker_popstateEffect True allowedPattern location_pathname b))) deltas h = Some h'
    \<longrightarrow> current h' = location_pathname \<and> history_length h' = history_length h"
    using RouteBlocker_attempts by blast
  have U: "allowedPattern location_pathname \<and> current h = location_pathname \<and>
      (\<forall>delta \<in> set deltas. delta < 0) \<and>
    blocked_attempts allowedPattern
      (usePreventNavigation_landing True allowedPattern location_pathname
         (usePreventNavigation_effect True allowedPattern location_pathname b)) deltas h = Some h'
    \<longrightarrow> current h' = location_pathname \<and> history_length h' \<le> history_length h"
    using usePreventNavigation_attempts by blast
  show ?thesis
    using B R U by (simp add: BuilderOnlyGuard_vetoed RouteBlocker_vetoed usePreventNavigation_blocked)
qed

theorem blocked_attempts_end_at_one_location_witness:
  "blocked_attempts (test ALLOWED_FLOW_PATTERN)
      (BuilderOnlyGuard_landing True ''/flow/abc'' (Some ''/flow/abc'')
         (fst (BuilderOnlyGuard_popstateEffect True ''/flow/abc''
            \<lparr>hist = \<lparr>behind = [''/settings'', ''/''], current = ''/flow/abc'', ahead = []\<rparr>,
              popstate_listeners = [], closures = 0\<rparr>)))
      [- 1, - 2] \<lparr>behind = [''/settings'', ''/''], current = ''/flow/abc'', ahead = []\<rparr>
     = Some \<lparr>behind = [''/flow/abc'', ''/flow/abc''], current = ''/flow/abc'', ahead = []\<rparr>
   \<and> blocked_attempts (test ALLOWED_FLOW_PATTERN)
      (RouteBlocker_landing True (test ALLOWED_FLOW_PATTERN) ''/flow/abc''
         (fst (RouteBlocker_popstateEffect True (test ALLOWED_FLOW_PATTERN) ''/flow/abc''
            \<lparr>hist = \<lparr>behind = [''/settings'', ''/''], current = ''/flow/abc'', ahead = []\<rparr>,
              popstate_listeners = [], closures = 0\<rparr>)))
      [- 1, - 2] \<lparr>behind = [''/settings'', ''/''], current = ''/flow/abc'', ahead = []\<rparr>
     = Some \<lparr>behind = [''/flow/abc'', ''/flow/abc''], current = ''/flow/abc'', ahead = []\<rparr>
   \<and> history_length \<lparr>behind = [''/flow/abc'', ''/flow/abc''], current = ''/flow/abc'', ahead = []\<rparr>
     = history_length \<lparr>behind = [''/settings'', ''/''], current = ''/flow/abc'', ahead = []\<rparr>
   \<and> blocked_attempts (test ALLOWED_FLOW_PATTERN)
      (usePreventNavigation_landing True (test ALLOWED_FLOW_PATTERN) ''/flow/abc''
         (usePreventNavigation_effect True (test ALLOWED_FLOW_PATTERN) ''/flow/abc''
            \<lparr>hist = \<lparr>behind = [''/settings'', ''/''], current = ''/flow/abc'', ahead = []\<rparr>,
              popstate_listeners = [], closures = 0\<rparr>))
      [- 2, - 1] \<lparr>behind = [''/flow/abc'', ''/settings'', ''/''], current = ''/flow/abc'', ahead = []\<rparr>
     = Some \<lparr>behind = [''/settings'', ''/''], current = ''/flow/abc'', ahead = []\<rparr>"
  using blocked_attempts_end_at_one_location
          [of "''/flow/abc''"
              "\<lparr>behind = [''/settings'', ''/''], current = ''/flow/abc'', ahead = []\<rparr>"
              "Some ''/flow/abc''"
              "\<lparr>hist = \<lparr>behind = [''/settings'', ''/''], current = ''/flow/abc'', ahead = []\<rparr>,
                popstate_listeners = [], closures = 0\<rparr>"
              "[- 1, - 2]"
              "\<lparr>behind = [''/flow/abc'', ''/flow/abc''], current = ''/flow/abc'', ahead = []\<rparr>"
              "test ALLOWED_FLOW_PATTERN"
              "\<lparr>behind = [''/''], current = ''/settings'', ahead = [''/flow/abc'']\<rparr>"
              "- 1"]
        blocked_attempts_end_at_one_location
          [of "''/flow/abc''"
              "\<lparr>behind = [''/flow/abc'', ''/settings'', ''/''], current = ''/flow/abc'', ahead = []\<rparr>"
              "Some ''/flow/abc''"
              "\<lparr>hist = \<lparr>behind = [''/settings'', ''/''], current = ''/flow/abc'', ahead = []\<rparr>,
                popstate_listeners = [], closures = 0\<rparr>"
              "[- 2, - 1]"
              "\<lparr>behind = [''/settings'', ''/''], current = ''/flow/abc'', ahead = []\<rparr>"
              "test ALLOWED_FLOW_PATTERN"
              "\<lparr>behind = [''/''], current = ''/settings'', ahead = [''/flow/abc'', ''/flow/abc'']\<rparr>"
              "- 2"]
  by (simp add: test_ALLOWED_FLOW_PATTERN traverse_def go_def replaceState_def pushState_def
        history_length_def numeral_2_eq_2 BuilderOnlyGuard_vetoed RouteBlocker_vetoed
        usePreventNavigation_blocked)

theorem usePreventNavigation_pushes_counterexample:
  "traverse (- 2) \<lparr>behind = [''/flow/abc'', ''/settings'', ''/''], current = ''/flow/abc'', ahead = []\<rparr>
     = Some \<lparr>behind = [''/''], current = ''/settings'', ahead = [''/flow/abc'', ''/flow/abc'']\<rparr>
   \<and> snd (usePreventNavigation_handlePopState (test ALLOWED_FLOW_PATTERN) ''/flow/abc''
        \<lparr>behind = [''/''], current = ''/settings'', ahead = [''/flow/abc'', ''/flow/abc'']\<rparr>)
     = [PushState ''/flow/abc'', NavigateReplace ''/flow/abc'']
   \<and> \<not> list_all is_replace
      (snd (usePreventNavigation_handlePopState (test ALLOWED_FLOW_PATTERN) ''/flow/abc''
        \<lparr>behind = [''/''], current = ''/settings'', ahead = [''/flow/abc'', ''/flow/abc'']\<rparr>))
   \<and> usePreventNavigation_landing True (test ALLOWED_FLOW_PATTERN) ''/flow/abc''
        (usePreventNavigation_effect True (test ALLOWED_FLOW_PATTERN) ''/flow/abc''
           \<lparr>hist = \<lparr>behind = [''/settings'', ''/''], current = ''/flow/abc'', ahead = []\<rparr>,
             popstate_listeners = [], closures = 0\<rparr>)
        (- 2) \<lparr>behind = [''/''], current = ''/settings'', ahead = [''/flow/abc'', ''/flow/abc'']\<rparr>
     = \<lparr>behind = [''/settings'', ''/''], current = ''/flow/abc'', ahead = []\<rparr>"
  by (simp add: test_ALLOWED_FLOW_PATTERN traverse_def numeral_2_eq_2 replaceState_def pushState_def
        usePreventNavigation_blocked)

section \<open>Teardown\<close>

text \<open>
  C9. When the guard is torn down, the \<^verbatim>\<open>popstate\<close> handler it registered is released.
  Whatever pathnames the component rendered at between mount and unmount, after the
  unmount the listeners of \<^verbatim>\<open>window\<close> are exactly those registered before the mount:
  no handler of the guard remains. (The listeners present at mount are closures that
  already exist.)
\<close>

theorem handlers_released_at_unmount:
  "(\<forall>l \<in> set (popstate_listeners b). l < closures b) \<longrightarrow>
     popstate_listeners
       (unmount (renders (RouteBlocker_popstateEffect enabled allowedPattern) pathnames (None, b)))
       = popstate_listeners b
   \<and> popstate_listeners
       (unmount (renders (usePreventNavigation_effect enabled allowedPattern) pathnames (None, b)))
       = popstate_listeners b
   \<and> popstate_listeners
       (unmount (renders (BuilderOnlyGuard_popstateEffect enabled) pathnames (None, b)))
       = popstate_listeners b"
  using unmount_renders [OF RouteBlocker_registers_fresh]
        unmount_renders [OF BuilderOnlyGuard_registers_fresh]
        unmount_renders [OF usePreventNavigation_registers_fresh]
  by blast

theorem handlers_released_at_unmount_witness:
  "popstate_listeners
       (snd (renders (BuilderOnlyGuard_popstateEffect True) [''/flow/abc'', ''/flow/def'']
          (None, \<lparr>hist = \<lparr>behind = [], current = ''/flow/abc'', ahead = []\<rparr>,
                  popstate_listeners = [0, 1], closures = 2\<rparr>)))
       = [0, 1, 3]
   \<and> popstate_listeners
       (unmount (renders (BuilderOnlyGuard_popstateEffect True) [''/flow/abc'', ''/flow/def'']
          (None, \<lparr>hist = \<lparr>behind = [], current = ''/flow/abc'', ahead = []\<rparr>,
                  popstate_listeners = [0, 1], closures = 2\<rparr>)))
       = [0, 1]
   \<and> popstate_listeners
       (unmount (renders (RouteBlocker_popstateEffect True (test ALLOWED_FLOW_PATTERN))
          [''/flow/abc'', ''/flow/def'']
          (None, \<lparr>hist = \<lparr>behind = [], current = ''/flow/abc'', ahead = []\<rparr>,
                  popstate_listeners = [0, 1], closures = 2\<rparr>)))
       = [0, 1]
   \<and> popstate_listeners
       (unmount (renders (usePreventNavigation_effect True (test ALLOWED_FLOW_PATTERN))
          [''/flow/abc'', ''/flow/def'']
          (None, \<lparr>hist = \<lparr>behind = [], current = ''/flow/abc'', ahead = []\<rparr>,
                  popstate_listeners = [0, 1], closures = 2\<rparr>)))
       = [0, 1]"
  using handlers_released_at_unmount
          [of "\<lparr>hist = \<lparr>behind = [], current = ''/flow/abc'', ahead = []\<rparr>,
                  popstate_listeners = [0, 1], closures = 2\<rparr>"
              True "test ALLOWED_FLOW_PATTERN" "[''/flow/abc'', ''/flow/def'']"]
  by (simp add: BuilderOnlyGuard_popstateEffect_def test_ALLOWED_FLOW_PATTERN cleanup_def
        addEventListener_def removeEventListener_def Let_def)

end
